theory Spec2Isabelle
  imports Complex_Main
begin

section \<open>The Kriging surrogate engine of EELSurrogate.cu\<close>

text \<open>
  The engine works on square matrices of doubles, flattened column-major into
  one-dimensional buffers: element (row, col) of a matrix of dimension \<open>d\<close> is stored at
  index \<open>row + col * d\<close>.

  Conventions of the embedding:
  \<^item> a \<open>double\<close> is a \<open>real\<close>: rounding, infinities and NaN are outside the model;
  \<^item> a buffer is a \<open>real list\<close>; an \<open>int\<close> that holds a dimension or an index is a
    \<open>nat\<close> (a block has at most 1024 threads, so \<open>dimension\<close> squared is far from
    the range of \<open>int\<close>);
  \<^item> a kernel is the function of one thread, taking the thread's \<open>index\<close>, folded over
    the indices of the launch;
  \<^item> the return code of every CUDA runtime call is given by the environment: \<open>rc k\<close>
    is the code returned at the \<open>k\<close>-th call site of a host function, counted in
    program order from 0;
  \<^item> memory obtained from \<open>cudaMalloc\<close> is not initialised: where a kernel reads such
    memory before writing it, its contents are a parameter named \<open>junk\<close>.
\<close>

subsection \<open>Kernel launches\<close>

text \<open>
  Every launch in the file has the form \<open>kernel <<<g, b>>> (...)\<close> with integers
  \<open>g\<close> and \<open>b\<close>: a one-dimensional grid of \<open>g\<close> blocks of \<open>b\<close> threads. So
  \<open>blockIdx.y = threadIdx.y = 0\<close>, and the kernels' common prologue
  \<^verbatim>\<open>i = blockIdx.x * blockDim.x + threadIdx.x; j = blockIdx.y * blockDim.y + threadIdx.y;
  index = i + j * dimension\<close> gives \<open>index = blockIdx.x * b + threadIdx.x\<close>.
\<close>

definition launch_indices :: "nat \<Rightarrow> nat \<Rightarrow> nat list" where
  "launch_indices gridDim blockDim =
     concat (map (\<lambda>blockIdx. map (\<lambda>threadIdx. blockIdx * blockDim + threadIdx) [0..<blockDim])
                 [0..<gridDim])"

subsection \<open>Elementwise kernels\<close>

definition calcDistanceBetMats_thread :: "nat \<Rightarrow> real list \<Rightarrow> real list \<Rightarrow> nat \<Rightarrow> real list \<Rightarrow> real list" where
  "calcDistanceBetMats_thread dimension inMatOne inMatTwo index outMat =
     outMat[index := \<bar>inMatOne ! index - inMatTwo ! index\<bar> ^ 2]"

definition calcDistanceBetMats :: "nat \<Rightarrow> nat \<Rightarrow> real list \<Rightarrow> real list \<Rightarrow> real list \<Rightarrow> nat \<Rightarrow> real list" where
  "calcDistanceBetMats gridDim blockDim outMat inMatOne inMatTwo dimension =
     fold (calcDistanceBetMats_thread dimension inMatOne inMatTwo) (launch_indices gridDim blockDim) outMat"

definition calcDistanceBetMatVec_thread :: "nat \<Rightarrow> real list \<Rightarrow> real list \<Rightarrow> nat \<Rightarrow> real list \<Rightarrow> real list" where
  "calcDistanceBetMatVec_thread dimension inMat inVec index outMat =
     outMat[index := \<bar>inMat ! index - inVec ! index\<bar> ^ 2]"

definition calcDistanceBetMatVec :: "nat \<Rightarrow> nat \<Rightarrow> real list \<Rightarrow> real list \<Rightarrow> real list \<Rightarrow> nat \<Rightarrow> real list" where
  "calcDistanceBetMatVec gridDim blockDim outMat inMat inVec dimension =
     fold (calcDistanceBetMatVec_thread dimension inMat inVec) (launch_indices gridDim blockDim) outMat"

definition calcGaussCorr_thread :: "nat \<Rightarrow> real \<Rightarrow> real \<Rightarrow> real \<Rightarrow> real list \<Rightarrow> nat \<Rightarrow> real list \<Rightarrow> real list" where
  "calcGaussCorr_thread dimension variance a theta inMat index outMat =
     (let negOne = - 1
      in outMat[index := (variance - a) * exp (negOne * theta * inMat ! index)])"

definition calcGaussCorr :: "nat \<Rightarrow> nat \<Rightarrow> real list \<Rightarrow> real list \<Rightarrow> nat \<Rightarrow> real \<Rightarrow> real \<Rightarrow> real \<Rightarrow> real list" where
  "calcGaussCorr gridDim blockDim outMat inMat dimension variance a theta =
     fold (calcGaussCorr_thread dimension variance a theta inMat) (launch_indices gridDim blockDim) outMat"

definition createIdentMat_thread :: "nat \<Rightarrow> nat \<Rightarrow> real list \<Rightarrow> real list" where
  "createIdentMat_thread dimension index matrix =
     (if index mod (dimension + 1) = 0 then matrix[index := 1] else matrix[index := 0])"

definition createIdentMat :: "nat \<Rightarrow> nat \<Rightarrow> real list \<Rightarrow> nat \<Rightarrow> real list" where
  "createIdentMat gridDim blockDim matrix dimension =
     fold (createIdentMat_thread dimension) (launch_indices gridDim blockDim) matrix"

text \<open>
  \<open>extendMat\<close> recognises the bottom-right corner by \<^verbatim>\<open>(int)sqrt((float)(index + 1)) == dimension\<close>.
  The argument is an integer below \<open>2^24\<close>, so the conversion to \<open>float\<close> is exact, and the
  truncated square root is the integer square root: the largest \<open>r\<close> with \<open>r * r \<le> x\<close>,
  found here by searching downwards from \<open>x\<close>.
\<close>

primrec floor_sqrt_upto :: "nat \<Rightarrow> nat \<Rightarrow> nat" where
  "floor_sqrt_upto x 0 = 0"
| "floor_sqrt_upto x (Suc r) = (if Suc r * Suc r \<le> x then Suc r else floor_sqrt_upto x r)"

definition floor_sqrt :: "nat \<Rightarrow> nat" where
  "floor_sqrt x = floor_sqrt_upto x x"

definition extendMat_thread :: "nat \<Rightarrow> real list \<Rightarrow> nat \<Rightarrow> real list \<Rightarrow> real list" where
  "extendMat_thread dimension inMat index outMat =
     (if (index + 1) mod dimension = 0 then
        (if floor_sqrt (index + 1) = dimension then outMat[index := 0] else outMat[index := 1])
      else if index \<ge> dimension * (dimension - 1) then outMat[index := 1]
      else outMat[index := inMat ! index])"

definition extendMat :: "nat \<Rightarrow> nat \<Rightarrow> real list \<Rightarrow> real list \<Rightarrow> nat \<Rightarrow> real list" where
  "extendMat gridDim blockDim outMat inMat dimension =
     fold (extendMat_thread dimension inMat) (launch_indices gridDim blockDim) outMat"

text \<open>
  \<open>multiplyMatrix\<close> accumulates into \<open>output[index]\<close> with \<open>+=\<close>, starting from whatever the
  output buffer holds when the kernel starts.
\<close>

definition multiplyMatrix_thread :: "nat \<Rightarrow> real list \<Rightarrow> real list \<Rightarrow> nat \<Rightarrow> real list \<Rightarrow> real list" where
  "multiplyMatrix_thread dimension firInput secInput index output =
     (let row = index mod dimension; col = index div dimension
      in fold (\<lambda>k output. output[index := output ! index
                   + firInput ! (row + k * dimension) * secInput ! (k + col * dimension)])
              [0..<dimension] output)"

definition multiplyMatrix :: "nat \<Rightarrow> nat \<Rightarrow> real list \<Rightarrow> real list \<Rightarrow> real list \<Rightarrow> nat \<Rightarrow> real list" where
  "multiplyMatrix gridDim blockDim output firInput secInput dimension =
     fold (multiplyMatrix_thread dimension firInput secInput) (launch_indices gridDim blockDim) output"

text \<open>
  The indices at which one thread of \<open>multiplyMatrix\<close> reads \<open>secInput\<close>
  (\<^verbatim>\<open>secInput[k + col * dimension]\<close> for \<open>k\<close> from 0 to \<open>dimension - 1\<close>), and those of a
  whole launch.
\<close>

definition multiplyMatrix_thread_secInput_reads :: "nat \<Rightarrow> nat \<Rightarrow> nat list" where
  "multiplyMatrix_thread_secInput_reads dimension index =
     (let col = index div dimension
      in map (\<lambda>k. k + col * dimension) [0..<dimension])"

definition multiplyMatrix_secInput_reads :: "nat \<Rightarrow> nat \<Rightarrow> nat \<Rightarrow> nat list" where
  "multiplyMatrix_secInput_reads gridDim blockDim dimension =
     concat (map (multiplyMatrix_thread_secInput_reads dimension) (launch_indices gridDim blockDim))"

subsection \<open>Kernels of the Gauss-Jordan inversion\<close>

text \<open>
  The device memory of \<open>invertMatrix\<close>: the paired matrix \<open>deviceIdenMat\<close>, the working
  matrix \<open>deviceInMat\<close>, the scratch buffer \<open>deviceBuffer\<close> of \<open>2 * dimension\<close> doubles
  (the kernels' \<open>vals\<close>, \<open>firstVals\<close> and \<open>lastVals\<close>) and the flag \<open>deviceFlag\<close>.
\<close>

record gauss_jordan =
  gj_idenMat :: "real list"
  gj_inMat :: "real list"
  gj_vals :: "real list"
  gj_flag :: bool

definition resetBuffers_thread :: "nat \<Rightarrow> nat \<Rightarrow> gauss_jordan \<Rightarrow> gauss_jordan" where
  "resetBuffers_thread dimension index s =
     (let s1 = (if index = 0 then s\<lparr>gj_flag := False\<rparr> else s)
      in if index < 2 * dimension then s1\<lparr>gj_vals := (gj_vals s1)[index := 0]\<rparr> else s1)"

definition resetBuffers :: "nat \<Rightarrow> nat \<Rightarrow> gauss_jordan \<Rightarrow> nat \<Rightarrow> gauss_jordan" where
  "resetBuffers gridDim blockDim s dimension =
     fold (resetBuffers_thread dimension) (launch_indices gridDim blockDim) s"

text \<open>
  \<open>normalizeRows\<close> and \<open>pivotUp\<close> start with a block that only the thread at the pivot's
  diagonal index runs (the leader): it fills the scratch buffer from the pivot column and
  sets the flag. Every thread then waits in \<^verbatim>\<open>while (*flag == false) {}\<close>. Both kernels
  are launched right after \<open>resetBuffers\<close> has cleared the flag, and the loop is meant as a
  rendezvous: the followers go on once the leader has published the scratch buffer.
  Whether the device makes the leader's writes visible in that order is outside this
  model, which takes the rendezvous as given: the leader runs first and the other threads
  follow; when no launched thread has the leader's index the flag is never set and the
  kernel does not return (\<open>None\<close>). After the loop a thread writes only its own index and
  reads nothing that another thread writes, so the order of the followers does not matter.
\<close>

definition spin_wait_order :: "nat \<Rightarrow> nat list \<Rightarrow> nat list option" where
  "spin_wait_order leader threads =
     (if leader \<in> set threads then Some (leader # removeAll leader threads) else None)"

definition normalizeRows_thread :: "nat \<Rightarrow> nat \<Rightarrow> nat \<Rightarrow> gauss_jordan \<Rightarrow> gauss_jordan" where
  "normalizeRows_thread dimension targetCol index s =
     (let s1 = (if index = targetCol * (dimension + 1)
                then s\<lparr>gj_vals := fold (\<lambda>k firstVals. firstVals[k := gj_inMat s ! (index - targetCol + k)])
                                      [index mod dimension..<dimension] (gj_vals s),
                       gj_flag := True\<rparr>
                else s);
          normVal = gj_vals s1 ! (index mod dimension)
      in if normVal \<noteq> 0 \<and> index \<ge> targetCol mod dimension
         then s1\<lparr>gj_idenMat := (gj_idenMat s1)[index := gj_idenMat s1 ! index / normVal],
                 gj_inMat := (gj_inMat s1)[index := gj_inMat s1 ! index / normVal]\<rparr>
         else s1)"

definition normalizeRows :: "nat \<Rightarrow> nat \<Rightarrow> gauss_jordan \<Rightarrow> nat \<Rightarrow> nat \<Rightarrow> gauss_jordan option" where
  "normalizeRows gridDim blockDim s dimension targetCol =
     map_option (\<lambda>threads. fold (normalizeRows_thread dimension targetCol) threads s)
                (spin_wait_order (targetCol * (dimension + 1)) (launch_indices gridDim blockDim))"

text \<open>
  \<open>pivotDown\<close> has no flag, and its threads are not independent: the condition of a
  thread in row \<open>r\<close> reads the entry of row \<open>r\<close> in the pivot column, which the thread
  owning that entry overwrites. Each thread has one such read, before its writes, so
  every outcome is that of running the threads one after the other in some order; the
  order is the parameter \<open>schedule\<close>, applied to the indices of the launch.
\<close>

definition pivotDown_thread :: "nat \<Rightarrow> nat \<Rightarrow> nat \<Rightarrow> gauss_jordan \<Rightarrow> gauss_jordan" where
  "pivotDown_thread dimension targetRow index s =
     (if index mod dimension > targetRow
         \<and> gj_inMat s ! (index mod dimension + targetRow * dimension) \<noteq> 0
      then (let temp = index - (index mod dimension - targetRow)
            in s\<lparr>gj_idenMat := (gj_idenMat s)[index := gj_idenMat s ! index - gj_idenMat s ! temp],
                 gj_inMat := (gj_inMat s)[index := gj_inMat s ! index - gj_inMat s ! temp]\<rparr>)
      else s)"

definition pivotDown :: "nat \<Rightarrow> nat \<Rightarrow> (nat list \<Rightarrow> nat list) \<Rightarrow> gauss_jordan \<Rightarrow> nat \<Rightarrow> nat \<Rightarrow> gauss_jordan" where
  "pivotDown gridDim blockDim schedule s dimension targetRow =
     fold (pivotDown_thread dimension targetRow) (schedule (launch_indices gridDim blockDim)) s"

definition pivotUp_thread :: "nat \<Rightarrow> nat \<Rightarrow> nat \<Rightarrow> gauss_jordan \<Rightarrow> gauss_jordan" where
  "pivotUp_thread dimension targetRow index s =
     (let s1 = (if index = targetRow * (dimension + 1)
                then s\<lparr>gj_vals := fold (\<lambda>k lastVals. lastVals[(index - k) mod dimension := gj_inMat s ! (index - k)])
                                      (rev [0..<index mod dimension + 1]) (gj_vals s),
                       gj_flag := True\<rparr>
                else s)
      in if index mod dimension < targetRow
         then s1\<lparr>gj_idenMat := (gj_idenMat s1)[index := gj_idenMat s1 ! index
                     - gj_vals s1 ! (index mod dimension)
                       * gj_idenMat s1 ! (index + targetRow - index mod dimension)],
                 gj_inMat := (gj_inMat s1)[index := gj_inMat s1 ! index
                     - gj_vals s1 ! (index mod dimension)
                       * gj_inMat s1 ! (index + targetRow - index mod dimension)]\<rparr>
         else s1)"

definition pivotUp :: "nat \<Rightarrow> nat \<Rightarrow> gauss_jordan \<Rightarrow> nat \<Rightarrow> nat \<Rightarrow> gauss_jordan option" where
  "pivotUp gridDim blockDim s dimension targetRow =
     map_option (\<lambda>threads. fold (pivotUp_thread dimension targetRow) threads s)
                (spin_wait_order (targetRow * (dimension + 1)) (launch_indices gridDim blockDim))"

text \<open>
  The two loops of \<open>invertMatrix\<close>: for \<open>i\<close> from 0 to \<open>dimension - 1\<close> the launches
  \<open>resetBuffers\<close>, \<open>normalizeRows\<close>, \<open>pivotDown\<close>; then for \<open>i\<close> from \<open>dimension - 1\<close>
  down to 1 the launches \<open>resetBuffers\<close>, \<open>pivotUp\<close>. A launch starts when the one
  before it has finished. \<open>schedule i\<close> is the order of the threads of \<open>pivotDown\<close> in
  iteration \<open>i\<close>.
\<close>

fun invert_forward :: "(nat \<Rightarrow> nat list \<Rightarrow> nat list) \<Rightarrow> nat \<Rightarrow> nat list \<Rightarrow> gauss_jordan \<Rightarrow> gauss_jordan option" where
  "invert_forward schedule dimension [] s = Some s"
| "invert_forward schedule dimension (i # pivots) s =
     (case normalizeRows dimension dimension (resetBuffers dimension dimension s dimension) dimension i of
        None \<Rightarrow> None
      | Some s1 \<Rightarrow>
          invert_forward schedule dimension pivots
            (pivotDown dimension dimension (schedule i) s1 dimension i))"

fun invert_backward :: "nat \<Rightarrow> nat list \<Rightarrow> gauss_jordan \<Rightarrow> gauss_jordan option" where
  "invert_backward dimension [] s = Some s"
| "invert_backward dimension (i # pivots) s =
     (case pivotUp dimension dimension (resetBuffers dimension dimension s dimension) dimension i of
        None \<Rightarrow> None
      | Some s1 \<Rightarrow> invert_backward dimension pivots s1)"

definition invert_kernels :: "(nat \<Rightarrow> nat list \<Rightarrow> nat list) \<Rightarrow> nat \<Rightarrow> gauss_jordan \<Rightarrow> gauss_jordan option" where
  "invert_kernels schedule dimension s =
     (case invert_forward schedule dimension [0..<dimension] s of
        None \<Rightarrow> None
      | Some s1 \<Rightarrow> invert_backward dimension (rev [1..<dimension]) s1)"

text \<open>
  The identity matrix of dimension \<open>d\<close> in column-major layout with stride \<open>d\<close>, as the
  specification has it: 1 where the row equals the column, 0 elsewhere.
\<close>

definition identity_matrix :: "nat \<Rightarrow> real list" where
  "identity_matrix d = map (\<lambda>idx. if idx mod d = idx div d then 1 else 0) [0..<d * d]"

subsection \<open>Host operations\<close>

text \<open>
  \<open>cudaError_t\<close> is declared in the CUDA headers; the host code only compares a status
  with \<open>cudaSuccess\<close> and hands it on, so every other code is \<open>cudaError c\<close>.
  \<open>check st unchanged rest\<close> is the recurring
  \<^verbatim>\<open>if (cudaStatus != cudaSuccess) { goto Error; }\<close>: at the label the function frees its
  device buffers and returns the status, the host buffers being as they were at the jump.
\<close>

datatype cudaError_t = cudaSuccess | cudaError nat

definition check :: "cudaError_t \<Rightarrow> 'a \<Rightarrow> cudaError_t \<times> 'a \<Rightarrow> cudaError_t \<times> 'a" where
  "check cudaStatus host rest = (if cudaStatus \<noteq> cudaSuccess then (cudaStatus, host) else rest)"

text \<open>
  A copy of \<open>count\<close> doubles overwrites the first \<open>count\<close> elements of the destination; the
  source is taken to hold at least \<open>count\<close> doubles (the source code does not check it). A
  copy that returns an error is taken to have written nothing. A fresh device buffer of
  \<open>count\<close> doubles holds whatever the memory held: \<open>junk\<close>, cut or padded to \<open>count\<close>.
\<close>

definition memcpy :: "real list \<Rightarrow> real list \<Rightarrow> nat \<Rightarrow> real list" where
  "memcpy dst src count = take count src @ drop count dst"

definition uninitialised :: "nat \<Rightarrow> real list \<Rightarrow> real list" where
  "uninitialised count junk = take count (junk @ replicate count 0)"

definition calculateGaussianCorrelation ::
  "(nat \<Rightarrow> cudaError_t) \<Rightarrow> real list \<Rightarrow> real list \<Rightarrow> real \<Rightarrow> real \<Rightarrow> real \<Rightarrow> nat \<Rightarrow> cudaError_t \<times> real list" where
  "calculateGaussianCorrelation rc outputMatrix inMatrix variance a theta dimension =
     (let matrixMemoryAllocationSize = dimension ^ 2 in
      check (rc 0) outputMatrix (
      check (rc 1) outputMatrix (
      check (rc 2) outputMatrix (
      check (rc 3) outputMatrix (
      let deviceInMat = take matrixMemoryAllocationSize inMatrix;
          deviceOutMat = take matrixMemoryAllocationSize outputMatrix;
          deviceOutMat = calcGaussCorr dimension dimension deviceOutMat deviceInMat dimension variance a theta in
      check (rc 4) outputMatrix (
      check (rc 5) outputMatrix (
      check (rc 6) outputMatrix (
      (cudaSuccess, memcpy outputMatrix deviceOutMat matrixMemoryAllocationSize)))))))))"

definition calculateDistanceBetweenMatrices ::
  "(nat \<Rightarrow> cudaError_t) \<Rightarrow> real list \<Rightarrow> real list \<Rightarrow> real list \<Rightarrow> real list \<Rightarrow> nat \<Rightarrow> cudaError_t \<times> real list" where
  "calculateDistanceBetweenMatrices rc junk outputMatrix inMatrixOne inMatrixTwo dimension =
     (let matrixMemoryAllocationSize = dimension ^ 2 in
      check (rc 0) outputMatrix (
      check (rc 1) outputMatrix (
      check (rc 2) outputMatrix (
      check (rc 3) outputMatrix (
      check (rc 4) outputMatrix (
      let deviceOutMat = uninitialised matrixMemoryAllocationSize junk;
          deviceInMatOne = take matrixMemoryAllocationSize inMatrixOne;
          deviceInMatTwo = take matrixMemoryAllocationSize inMatrixTwo;
          deviceOutMat = calcDistanceBetMats dimension dimension deviceOutMat deviceInMatOne deviceInMatTwo dimension in
      check (rc 5) outputMatrix (
      check (rc 6) outputMatrix (
      check (rc 7) outputMatrix (
      (cudaSuccess, memcpy outputMatrix deviceOutMat matrixMemoryAllocationSize))))))))))"

definition calculateDistanceBetweenMatrixVector ::
  "(nat \<Rightarrow> cudaError_t) \<Rightarrow> real list \<Rightarrow> real list \<Rightarrow> real list \<Rightarrow> real list \<Rightarrow> nat \<Rightarrow> cudaError_t \<times> real list" where
  "calculateDistanceBetweenMatrixVector rc junk outputMatrix inMatrix inVector dimension =
     (let matrixMemoryAllocationSize = dimension ^ 2 in
      check (rc 0) outputMatrix (
      check (rc 1) outputMatrix (
      check (rc 2) outputMatrix (
      check (rc 3) outputMatrix (
      check (rc 4) outputMatrix (
      let deviceOutMat = uninitialised matrixMemoryAllocationSize junk;
          deviceInMat = take matrixMemoryAllocationSize inMatrix;
          deviceInVec = take matrixMemoryAllocationSize inVector;
          deviceOutMat = calcDistanceBetMatVec dimension 1 deviceOutMat deviceInMat deviceInVec dimension in
      check (rc 5) outputMatrix (
      check (rc 6) outputMatrix (
      check (rc 7) outputMatrix (
      (cudaSuccess, memcpy outputMatrix deviceOutMat matrixMemoryAllocationSize))))))))))"

text \<open>
  \<open>extendMatrix\<close> starts with a host loop over its input buffer, before any CUDA call:
  \<^verbatim>\<open>for (i = dimension; i >= 0; i--) for (j = dimension; j >= 0; j--)
    inputMatrix[i + j * (dimension + 1)] = inputMatrix[i + j * dimension];\<close>
  An access outside the buffer is undefined behaviour: \<open>None\<close>.
\<close>

definition host_assign :: "nat \<Rightarrow> nat \<Rightarrow> real list \<Rightarrow> real list option" where
  "host_assign dst src m = (if dst < length m \<and> src < length m then Some (m[dst := m ! src]) else None)"

fun fold_option :: "('a \<Rightarrow> 'b \<Rightarrow> 'b option) \<Rightarrow> 'a list \<Rightarrow> 'b \<Rightarrow> 'b option" where
  "fold_option f [] s = Some s"
| "fold_option f (x # xs) s = (case f x s of None \<Rightarrow> None | Some s' \<Rightarrow> fold_option f xs s')"

definition extendMatrix_swap :: "nat \<Rightarrow> real list \<Rightarrow> real list option" where
  "extendMatrix_swap dimension inputMatrix =
     fold_option (\<lambda>i. fold_option (\<lambda>j. host_assign (i + j * (dimension + 1)) (i + j * dimension))
                                   (rev [0..<dimension + 1]))
                 (rev [0..<dimension + 1]) inputMatrix"

text \<open>One pass of the inner loop, for a fixed \<open>i\<close>.\<close>

definition swap_row :: "nat \<Rightarrow> nat \<Rightarrow> real list \<Rightarrow> real list option" where
  "swap_row n i = fold_option (\<lambda>j. host_assign (i + j * (n + 1)) (i + j * n)) (rev [0..<n + 1])"

text \<open>
  The result of \<open>extendMatrix\<close> is the status, the output buffer and the input buffer,
  for buffers that do not overlap.
\<close>

definition extendMatrix ::
  "(nat \<Rightarrow> cudaError_t) \<Rightarrow> real list \<Rightarrow> real list \<Rightarrow> real list \<Rightarrow> nat \<Rightarrow> (cudaError_t \<times> real list \<times> real list) option" where
  "extendMatrix rc junk outputMatrix inputMatrix dimension =
     (let matrixMemoryAllocationSize = (dimension + 1) ^ 2 in
      case extendMatrix_swap dimension inputMatrix of
        None \<Rightarrow> None
      | Some inputMatrix \<Rightarrow> Some (
          check (rc 0) (outputMatrix, inputMatrix) (
          check (rc 1) (outputMatrix, inputMatrix) (
          check (rc 2) (outputMatrix, inputMatrix) (
          let deviceOutMat = uninitialised matrixMemoryAllocationSize junk;
              deviceInMat = take matrixMemoryAllocationSize inputMatrix;
              deviceOutMat = extendMat (dimension + 1) (dimension + 1) deviceOutMat deviceInMat (dimension + 1) in
          check (rc 3) (outputMatrix, inputMatrix) (
          check (rc 4) (outputMatrix, inputMatrix) (
          check (rc 5) (outputMatrix, inputMatrix) (
          (cudaSuccess, memcpy outputMatrix deviceOutMat matrixMemoryAllocationSize, inputMatrix)))))))))"

text \<open>
  \<open>invertMatrix\<close> copies the host flag (set to true) and both matrices to the device, runs
  the launches, and copies the paired matrix back to \<open>outputMatrix\<close>, then the working
  matrix back to \<open>inputMatrix\<close>. When a kernel does not return, neither does
  \<open>cudaDeviceSynchronize\<close>: \<open>None\<close>.
\<close>

definition invertMatrix ::
  "(nat \<Rightarrow> cudaError_t) \<Rightarrow> real list \<Rightarrow> (nat \<Rightarrow> nat list \<Rightarrow> nat list) \<Rightarrow> real list \<Rightarrow> real list \<Rightarrow> nat
     \<Rightarrow> (cudaError_t \<times> real list \<times> real list) option" where
  "invertMatrix rc junk schedule outputMatrix inputMatrix dimension =
     (let flag = True;
          matrixMemoryAllocationSize = dimension ^ 2;
          unchanged = (outputMatrix, inputMatrix)
      in if rc 0 \<noteq> cudaSuccess then Some (rc 0, unchanged)
         else if rc 1 \<noteq> cudaSuccess then Some (rc 1, unchanged)
         else if rc 2 \<noteq> cudaSuccess then Some (rc 2, unchanged)
         else if rc 3 \<noteq> cudaSuccess then Some (rc 3, unchanged)
         else if rc 4 \<noteq> cudaSuccess then Some (rc 4, unchanged)
         else if rc 5 \<noteq> cudaSuccess then Some (rc 5, unchanged)
         else if rc 6 \<noteq> cudaSuccess then Some (rc 6, unchanged)
         else
           case invert_kernels schedule dimension
                  \<lparr>gj_idenMat = take matrixMemoryAllocationSize outputMatrix,
                   gj_inMat = take matrixMemoryAllocationSize inputMatrix,
                   gj_vals = uninitialised (2 * dimension) junk,
                   gj_flag = flag\<rparr> of
             None \<Rightarrow> None
           | Some device \<Rightarrow> Some (
               check (rc 7) unchanged (
               check (rc 8) unchanged (
               check (rc 9) unchanged (
               let outputMatrix = memcpy outputMatrix (gj_idenMat device) matrixMemoryAllocationSize in
               check (rc 10) (outputMatrix, inputMatrix) (
               (cudaSuccess, outputMatrix,
                memcpy inputMatrix (gj_inMat device) matrixMemoryAllocationSize)))))))"

definition createIdentityMatrix ::
  "(nat \<Rightarrow> cudaError_t) \<Rightarrow> real list \<Rightarrow> nat \<Rightarrow> cudaError_t \<times> real list" where
  "createIdentityMatrix rc matrix dimension =
     (let matrixMemoryAllocationSize = dimension ^ 2 in
      check (rc 0) matrix (
      check (rc 1) matrix (
      let deviceMat = take matrixMemoryAllocationSize matrix;
          deviceMat = createIdentMat dimension dimension deviceMat dimension in
      check (rc 2) matrix (
      check (rc 3) matrix (
      (cudaSuccess, memcpy matrix deviceMat matrixMemoryAllocationSize))))))"

text \<open>
  \<open>calculateWeightVector\<close> allocates \<open>dimension\<close> doubles for the covariance vector
  (\<open>vectorMemoryAllocationSize\<close>) and copies as many; the output buffer of the kernel is
  fresh device memory, as in \<open>multiplyMatrices\<close>.
\<close>

definition calculateWeightVector ::
  "(nat \<Rightarrow> cudaError_t) \<Rightarrow> real list \<Rightarrow> real list \<Rightarrow> real list \<Rightarrow> real list \<Rightarrow> nat \<Rightarrow> cudaError_t \<times> real list" where
  "calculateWeightVector rc junk outputVectorMatrix invertedCovarianceMatrix covarianceVectorMatrix dimension =
     (let matrixMemoryAllocationSize = dimension ^ 2;
          vectorMemoryAllocationSize = dimension in
      check (rc 0) outputVectorMatrix (
      check (rc 1) outputVectorMatrix (
      check (rc 2) outputVectorMatrix (
      check (rc 3) outputVectorMatrix (
      check (rc 4) outputVectorMatrix (
      let deviceOutMat = uninitialised matrixMemoryAllocationSize junk;
          deviceInvCovMat = take matrixMemoryAllocationSize invertedCovarianceMatrix;
          deviceCovVecMat = take vectorMemoryAllocationSize covarianceVectorMatrix;
          deviceOutMat = multiplyMatrix dimension dimension deviceOutMat deviceInvCovMat deviceCovVecMat dimension in
      check (rc 5) outputVectorMatrix (
      check (rc 6) outputVectorMatrix (
      check (rc 7) outputVectorMatrix (
      (cudaSuccess, memcpy outputVectorMatrix deviceOutMat matrixMemoryAllocationSize))))))))))"

definition calculateWeightVector_covVec_reads :: "nat \<Rightarrow> nat list" where
  "calculateWeightVector_covVec_reads dimension = multiplyMatrix_secInput_reads dimension dimension dimension"

definition multiplyMatrices ::
  "(nat \<Rightarrow> cudaError_t) \<Rightarrow> real list \<Rightarrow> real list \<Rightarrow> real list \<Rightarrow> nat \<Rightarrow> cudaError_t \<times> real list" where
  "multiplyMatrices rc junk output inputMatrix dimension =
     (let matrixMemoryAllocationSize = dimension ^ 2 in
      check (rc 0) output (
      check (rc 1) output (
      check (rc 2) output (
      check (rc 3) output (
      check (rc 4) output (
      let deviceInputOne = take matrixMemoryAllocationSize output;
          deviceInputTwo = take matrixMemoryAllocationSize inputMatrix;
          deviceOutput = uninitialised matrixMemoryAllocationSize junk;
          deviceOutput = multiplyMatrix dimension dimension deviceOutput deviceInputOne deviceInputTwo dimension in
      check (rc 5) output (
      check (rc 6) output (
      (cudaSuccess, memcpy output deviceOutput matrixMemoryAllocationSize)))))))))"

subsection \<open>The pipeline driver\<close>

text \<open>
  \<open>metamodelSetup\<close> allocates three host buffers of \<open>(dimension + 1)\<^sup>2\<close> doubles, zeroes
  them, and calls the host operations one after the other; after each call a status
  other than \<open>cudaSuccess\<close> jumps to the label \<open>SetupError\<close>, where the status is printed,
  the three buffers are freed and \<open>outputValue\<close> is returned. The environment gives, for
  each call, the return codes of the CUDA runtime calls made in it, the contents of the
  device memory it allocates, and the thread orders of \<open>pivotDown\<close>. \<open>performed\<close> lists
  the calls made so far, each with the status it returned.
\<close>

datatype step =
  SetDevice | CreateIdentity | DistanceMatrices | DistanceMatrixVector
  | CorrelationMatrix | CorrelationVector | Extend | Invert | Weights | Estimate

record cuda_env =
  return_codes :: "step \<Rightarrow> nat \<Rightarrow> cudaError_t"
  fresh_memory :: "step \<Rightarrow> real list"
  thread_order :: "nat \<Rightarrow> nat list \<Rightarrow> nat list"

record setup_state =
  identityMatrix :: "real list"
  tempMatrixOne :: "real list"
  tempMatrixTwo :: "real list"
  cudaStatus :: cudaError_t
  outputValue :: real
  performed :: "(step \<times> cudaError_t) list"

definition initial_state :: "nat \<Rightarrow> setup_state" where
  "initial_state dimension =
     \<lparr>identityMatrix = replicate ((dimension + 1) ^ 2) 0,
      tempMatrixOne = replicate ((dimension + 1) ^ 2) 0,
      tempMatrixTwo = replicate ((dimension + 1) ^ 2) 0,
      cudaStatus = cudaSuccess,
      outputValue = 0,
      performed = []\<rparr>"

definition returned_from :: "step \<Rightarrow> cudaError_t \<Rightarrow> setup_state \<Rightarrow> setup_state" where
  "returned_from call st s = s\<lparr>cudaStatus := st, performed := performed s @ [(call, st)]\<rparr>"

definition call_cudaSetDevice :: "cuda_env \<Rightarrow> setup_state \<Rightarrow> setup_state option" where
  "call_cudaSetDevice env s = Some (returned_from SetDevice (return_codes env SetDevice 0) s)"

definition call_createIdentityMatrix :: "cuda_env \<Rightarrow> nat \<Rightarrow> setup_state \<Rightarrow> setup_state option" where
  "call_createIdentityMatrix env dimension s =
     (case createIdentityMatrix (return_codes env CreateIdentity) (identityMatrix s) dimension of
        (st, matrix) \<Rightarrow> Some (returned_from CreateIdentity st (s\<lparr>identityMatrix := matrix\<rparr>)))"

definition call_calculateDistanceBetweenMatrices ::
  "cuda_env \<Rightarrow> nat \<Rightarrow> real list \<Rightarrow> real list \<Rightarrow> setup_state \<Rightarrow> setup_state option" where
  "call_calculateDistanceBetweenMatrices env dimension designSite designSiteValues s =
     (case calculateDistanceBetweenMatrices (return_codes env DistanceMatrices)
             (fresh_memory env DistanceMatrices) (tempMatrixOne s) designSite designSiteValues dimension of
        (st, outputMatrix) \<Rightarrow> Some (returned_from DistanceMatrices st (s\<lparr>tempMatrixOne := outputMatrix\<rparr>)))"

definition call_calculateDistanceBetweenMatrixVector ::
  "cuda_env \<Rightarrow> nat \<Rightarrow> real list \<Rightarrow> real list \<Rightarrow> setup_state \<Rightarrow> setup_state option" where
  "call_calculateDistanceBetweenMatrixVector env dimension designSite testSite s =
     (case calculateDistanceBetweenMatrixVector (return_codes env DistanceMatrixVector)
             (fresh_memory env DistanceMatrixVector) (tempMatrixTwo s) designSite testSite dimension of
        (st, outputMatrix) \<Rightarrow> Some (returned_from DistanceMatrixVector st (s\<lparr>tempMatrixTwo := outputMatrix\<rparr>)))"

definition call_calculateGaussianCorrelation_One ::
  "cuda_env \<Rightarrow> nat \<Rightarrow> real \<Rightarrow> real \<Rightarrow> real \<Rightarrow> setup_state \<Rightarrow> setup_state option" where
  "call_calculateGaussianCorrelation_One env dimension variance a theta s =
     (case calculateGaussianCorrelation (return_codes env CorrelationMatrix)
             (tempMatrixOne s) (tempMatrixOne s) variance a theta dimension of
        (st, outputMatrix) \<Rightarrow> Some (returned_from CorrelationMatrix st (s\<lparr>tempMatrixOne := outputMatrix\<rparr>)))"

definition call_calculateGaussianCorrelation_Two ::
  "cuda_env \<Rightarrow> nat \<Rightarrow> real \<Rightarrow> real \<Rightarrow> real \<Rightarrow> setup_state \<Rightarrow> setup_state option" where
  "call_calculateGaussianCorrelation_Two env dimension variance a theta s =
     (case calculateGaussianCorrelation (return_codes env CorrelationVector)
             (tempMatrixTwo s) (tempMatrixTwo s) variance a theta dimension of
        (st, outputMatrix) \<Rightarrow> Some (returned_from CorrelationVector st (s\<lparr>tempMatrixTwo := outputMatrix\<rparr>)))"

text \<open>\<^verbatim>\<open>for (int i = dimension; i < pow(dimension + 1, 2); i++) tempMatrixTwo[i] = 0;\<close>\<close>

definition clear_after_vector :: "nat \<Rightarrow> setup_state \<Rightarrow> setup_state option" where
  "clear_after_vector dimension s =
     Some (s\<lparr>tempMatrixTwo := fold (\<lambda>i m. m[i := 0]) [dimension..<(dimension + 1) ^ 2] (tempMatrixTwo s)\<rparr>)"

text \<open>
  \<open>extendMatrix (tempMatrixOne, tempMatrixOne, dimension)\<close>: output and input are the same
  buffer of exactly \<open>(dimension + 1)\<^sup>2\<close> doubles, so after the call it holds the copied
  device output when the call succeeded, and the swapped input otherwise.
\<close>

definition call_extendMatrix :: "cuda_env \<Rightarrow> nat \<Rightarrow> setup_state \<Rightarrow> setup_state option" where
  "call_extendMatrix env dimension s =
     (case extendMatrix (return_codes env Extend) (fresh_memory env Extend)
             (tempMatrixOne s) (tempMatrixOne s) dimension of
        None \<Rightarrow> None
      | Some (st, outputMatrix, inputMatrix) \<Rightarrow>
          Some (returned_from Extend st
                  (s\<lparr>tempMatrixOne := (if st = cudaSuccess then outputMatrix else inputMatrix)\<rparr>)))"

text \<open>\<^verbatim>\<open>tempMatrixTwo[dimension + 0*dimension] = 1;\<close>\<close>

definition extend_vector :: "nat \<Rightarrow> setup_state \<Rightarrow> setup_state option" where
  "extend_vector dimension s =
     Some (s\<lparr>tempMatrixTwo := (tempMatrixTwo s)[dimension + 0 * dimension := 1]\<rparr>)"

definition call_invertMatrix :: "cuda_env \<Rightarrow> nat \<Rightarrow> setup_state \<Rightarrow> setup_state option" where
  "call_invertMatrix env dimension s =
     (case invertMatrix (return_codes env Invert) (fresh_memory env Invert) (thread_order env)
             (identityMatrix s) (tempMatrixOne s) (dimension + 1) of
        None \<Rightarrow> None
      | Some (st, outputMatrix, inputMatrix) \<Rightarrow>
          Some (returned_from Invert st (s\<lparr>identityMatrix := outputMatrix, tempMatrixOne := inputMatrix\<rparr>)))"

definition call_calculateWeightVector :: "cuda_env \<Rightarrow> nat \<Rightarrow> setup_state \<Rightarrow> setup_state option" where
  "call_calculateWeightVector env dimension s =
     (case calculateWeightVector (return_codes env Weights) (fresh_memory env Weights)
             (tempMatrixTwo s) (tempMatrixOne s) (tempMatrixTwo s) (dimension + 1) of
        (st, outputVectorMatrix) \<Rightarrow> Some (returned_from Weights st (s\<lparr>tempMatrixTwo := outputVectorMatrix\<rparr>)))"

definition call_multiplyMatrices :: "cuda_env \<Rightarrow> nat \<Rightarrow> real list \<Rightarrow> setup_state \<Rightarrow> setup_state option" where
  "call_multiplyMatrices env dimension designSiteValues s =
     (case multiplyMatrices (return_codes env Estimate) (fresh_memory env Estimate)
             (tempMatrixTwo s) designSiteValues (dimension + 1) of
        (st, output) \<Rightarrow> Some (returned_from Estimate st (s\<lparr>tempMatrixTwo := output\<rparr>)))"

text \<open>\<^verbatim>\<open>outputValue = tempMatrixTwo[0];\<close>\<close>

definition take_outputValue :: "setup_state \<Rightarrow> setup_state option" where
  "take_outputValue s = Some (s\<lparr>outputValue := tempMatrixTwo s ! 0\<rparr>)"

definition metamodelSetup_statements ::
  "cuda_env \<Rightarrow> nat \<Rightarrow> real \<Rightarrow> real \<Rightarrow> real \<Rightarrow> real list \<Rightarrow> real list \<Rightarrow> real list
     \<Rightarrow> (setup_state \<Rightarrow> setup_state option) list" where
  "metamodelSetup_statements env dimension theta variance a designSite testSite designSiteValues =
     [call_cudaSetDevice env,
      call_createIdentityMatrix env dimension,
      call_calculateDistanceBetweenMatrices env dimension designSite designSiteValues,
      call_calculateDistanceBetweenMatrixVector env dimension designSite testSite,
      call_calculateGaussianCorrelation_One env dimension variance a theta,
      call_calculateGaussianCorrelation_Two env dimension variance a theta,
      clear_after_vector dimension,
      call_extendMatrix env dimension,
      extend_vector dimension,
      call_invertMatrix env dimension,
      call_calculateWeightVector env dimension,
      call_multiplyMatrices env dimension designSiteValues,
      take_outputValue]"

text \<open>
  Once a call has returned an error, the jump to \<open>SetupError\<close> skips every later
  statement. A statement that does not return (\<open>None\<close>) ends the run.
\<close>

definition unless_failed :: "(setup_state \<Rightarrow> setup_state option) \<Rightarrow> setup_state \<Rightarrow> setup_state option" where
  "unless_failed statement s = (if cudaStatus s \<noteq> cudaSuccess then Some s else statement s)"

definition run_statements :: "(setup_state \<Rightarrow> setup_state option) list \<Rightarrow> setup_state \<Rightarrow> setup_state option" where
  "run_statements statements s = fold_option unless_failed statements s"

text \<open>
  The state in which \<open>invertMatrix\<close> is called: after the nine statements before the
  call, the tenth of the list.
\<close>

definition state_before_invertMatrix ::
  "cuda_env \<Rightarrow> nat \<Rightarrow> real \<Rightarrow> real \<Rightarrow> real \<Rightarrow> real list \<Rightarrow> real list \<Rightarrow> real list \<Rightarrow> setup_state option" where
  "state_before_invertMatrix env dimension theta variance a designSite testSite designSiteValues =
     run_statements
       (take 9 (metamodelSetup_statements env dimension theta variance a designSite testSite designSiteValues))
       (initial_state dimension)"

datatype log_line = Setup_Device_failed | Setup_CUDA_Error_Code cudaError_t

record setup_result =
  returned :: real
  printed :: "log_line list"
  freed :: "string list"
  calls :: "(step \<times> cudaError_t) list"
  status :: cudaError_t

definition SetupError :: "setup_state \<Rightarrow> setup_result" where
  "SetupError s =
     \<lparr>returned = outputValue s,
      printed = (if cudaStatus s \<noteq> cudaSuccess
                 then [Setup_Device_failed, Setup_CUDA_Error_Code (cudaStatus s)] else []),
      freed = [''identityMatrix'', ''tempMatrixOne'', ''tempMatrixTwo''],
      calls = performed s,
      status = cudaStatus s\<rparr>"

definition metamodelSetup ::
  "cuda_env \<Rightarrow> nat \<Rightarrow> real \<Rightarrow> real \<Rightarrow> real \<Rightarrow> real list \<Rightarrow> real list \<Rightarrow> real list \<Rightarrow> setup_result option" where
  "metamodelSetup env dimension theta variance a designSite testSite designSiteValues =
     map_option SetupError
       (run_statements
          (metamodelSetup_statements env dimension theta variance a designSite testSite designSiteValues)
          (initial_state dimension))"

text \<open>The calls of the driver, in the order of the source.\<close>

definition pipeline :: "step list" where
  "pipeline = [SetDevice, CreateIdentity, DistanceMatrices, DistanceMatrixVector,
               CorrelationMatrix, CorrelationVector, Extend, Invert, Weights, Estimate]"

subsection \<open>Statements of the driver, as the proofs see them\<close>

text \<open>
  \<open>performs L label f L'\<close>: from a state that satisfies \<open>L\<close> the statement \<open>f\<close> returns,
  in a state that satisfies \<open>L'\<close>, without touching \<open>outputValue\<close>; a call (\<open>Some c\<close>) adds
  itself and its status to \<open>performed\<close>, a host statement (\<open>None\<close>) leaves \<open>performed\<close> and
  the status alone. \<open>chained\<close> links a list of statements by these conditions.
\<close>

definition performs ::
  "(setup_state \<Rightarrow> bool) \<Rightarrow> step option \<Rightarrow> (setup_state \<Rightarrow> setup_state option)
     \<Rightarrow> (setup_state \<Rightarrow> bool) \<Rightarrow> bool" where
  "performs L label f L' \<longleftrightarrow>
     (\<forall>s. L s \<longrightarrow>
        (\<exists>s'. f s = Some s' \<and> L' s' \<and> outputValue s' = outputValue s
           \<and> (case label of
                 Some c \<Rightarrow> performed s' = performed s @ [(c, cudaStatus s')]
               | None \<Rightarrow> performed s' = performed s \<and> cudaStatus s' = cudaStatus s)))"

fun chained ::
  "(setup_state \<Rightarrow> bool)
     \<Rightarrow> (step option \<times> (setup_state \<Rightarrow> setup_state option) \<times> (setup_state \<Rightarrow> bool)) list \<Rightarrow> bool" where
  "chained L [] = True"
| "chained L ((label, f, L') # rest) = (performs L label f L' \<and> chained L' rest)"

definition calls_of ::
  "(step option \<times> (setup_state \<Rightarrow> setup_state option) \<times> (setup_state \<Rightarrow> bool)) list \<Rightarrow> step list" where
  "calls_of chain = List.map_filter fst chain"

text \<open>
  What the statements before the call of \<open>extendMatrix\<close> keep: the length of
  \<open>tempMatrixOne\<close>, and any property \<open>P\<close> of \<open>identityMatrix\<close> that
  \<open>createIdentityMatrix\<close> keeps.
\<close>

definition holds_extended :: "nat \<Rightarrow> (real list \<Rightarrow> bool) \<Rightarrow> setup_state \<Rightarrow> bool" where
  "holds_extended n P s \<longleftrightarrow> length (tempMatrixOne s) = (n + 1) ^ 2 \<and> P (identityMatrix s)"

definition keeps_identity :: "(real list \<Rightarrow> bool) \<Rightarrow> setup_state \<Rightarrow> bool" where
  "keeps_identity P s \<longleftrightarrow> P (identityMatrix s)"

text \<open>Element (1, 1) of a buffer of dimension \<open>n + 1\<close> is 0.\<close>

definition second_diagonal_zero :: "nat \<Rightarrow> real list \<Rightarrow> bool" where
  "second_diagonal_zero n m \<longleftrightarrow> length m = (n + 1) ^ 2 \<and> m ! (1 + 1 * (n + 1)) = 0"

subsection \<open>Invariants of the inversion of the identity matrix\<close>

definition gj_identity :: "nat \<Rightarrow> gauss_jordan \<Rightarrow> bool" where
  "gj_identity d s \<longleftrightarrow> gj_idenMat s = identity_matrix d \<and> gj_inMat s = identity_matrix d"

definition unit_vals :: "nat \<Rightarrow> gauss_jordan \<Rightarrow> bool" where
  "unit_vals d s \<longleftrightarrow> (\<forall>k<d. gj_vals s ! k = 0 \<or> gj_vals s ! k = 1)"

definition zero_above :: "nat \<Rightarrow> gauss_jordan \<Rightarrow> bool" where
  "zero_above p s \<longleftrightarrow> (\<forall>r<p. gj_vals s ! r = 0)"

definition gj_inv :: "nat \<Rightarrow> gauss_jordan \<Rightarrow> bool" where
  "gj_inv d s \<longleftrightarrow> gj_identity d s \<and> length (gj_vals s) = 2 * d"

section \<open>Properties\<close>

subsection \<open>Launches and elementwise writes\<close>

lemma launch_indices_upt: "launch_indices g b = [0..<g * b]"
proof (induction g)
  case 0
  show ?case by (simp add: launch_indices_def)
next
  case (Suc g)
  have shifted: "map (\<lambda>t. g * b + t) [0..<b] = [g * b..<g * b + b]"
    using map_add_upt [of "g * b" b] by (simp add: add.commute)
  have split: "[0..<g * b + b] = [0..<g * b] @ [g * b..<g * b + b]"
    by (rule upt_add_eq_append) simp
  have "launch_indices (Suc g) b = launch_indices g b @ map (\<lambda>t. g * b + t) [0..<b]"
    by (simp add: launch_indices_def)
  also have "\<dots> = [0..<g * b + b]" using Suc shifted split by simp
  finally show ?case by (simp add: add.commute)
qed

lemma fold_own_index_length:
  "length (fold (\<lambda>idx out. out[idx := f idx]) ids out) = length out"
  by (induction ids arbitrary: out) simp_all

lemma fold_own_index_nth:
  "k < length out \<Longrightarrow>
   fold (\<lambda>idx out. out[idx := f idx]) ids out ! k = (if k \<in> set ids then f k else out ! k)"
proof (induction ids arbitrary: out)
  case Nil
  show ?case by simp
next
  case (Cons i ids)
  have "fold (\<lambda>idx out. out[idx := f idx]) ids (out[i := f i]) ! k =
        (if k \<in> set ids then f k else out[i := f i] ! k)"
    using Cons.prems by (intro Cons.IH) simp
  then show ?case using Cons.prems by (auto simp: nth_list_update)
qed

subsection \<open>Gaussian correlation\<close>

text \<open>
  C5. For every input matrix, every index of the launch and all scalars, the kernel
  \<open>calcGaussCorr\<close>, launched as in \<open>calculateGaussianCorrelation\<close> with \<open>dimension\<close>
  blocks of \<open>dimension\<close> threads, leaves
  \<open>(variance - nugget) * exp (- theta * distance[idx])\<close> at index \<open>idx\<close> of the output;
  where the distance is 0 the output is exactly \<open>variance - nugget\<close>.
\<close>

theorem calcGaussCorr_formula:
  assumes "idx < dimension * dimension" and "dimension * dimension \<le> length outMat"
  shows "calcGaussCorr dimension dimension outMat inMat dimension variance a theta ! idx
           = (variance - a) * exp (- theta * inMat ! idx)
         \<and> (inMat ! idx = 0 \<longrightarrow>
              calcGaussCorr dimension dimension outMat inMat dimension variance a theta ! idx
                = variance - a)"
proof -
  have "calcGaussCorr dimension dimension outMat inMat dimension variance a theta
          = fold (\<lambda>idx out. out[idx := (variance - a) * exp (- 1 * theta * inMat ! idx)])
                 [0..<dimension * dimension] outMat"
    by (simp add: calcGaussCorr_def calcGaussCorr_thread_def [abs_def] launch_indices_upt)
  then have "calcGaussCorr dimension dimension outMat inMat dimension variance a theta ! idx
          = (variance - a) * exp (- 1 * theta * inMat ! idx)"
    using assms by (simp add: fold_own_index_nth)
  then show ?thesis by simp
qed

theorem calcGaussCorr_formula_witness:
  "(0::nat) < 1 * 1 \<and> 1 * 1 \<le> length [7::real]
   \<and> calcGaussCorr 1 1 [7] [0] 1 5 2 3 ! 0 = (5 - 2) * exp (- 3 * [0] ! 0)
   \<and> [0::real] ! 0 = 0 \<and> calcGaussCorr 1 1 [7] [0] 1 5 2 3 ! 0 = 5 - 2"
  using calcGaussCorr_formula [of 0 1 "[7]" "[0]" 5 2 3] by simp

subsection \<open>Inversion of the identity matrix\<close>

lemma identity_matrix_length: "length (identity_matrix d) = d * d"
  by (simp add: identity_matrix_def)

lemma identity_matrix_nth:
  "idx < d * d \<Longrightarrow> identity_matrix d ! idx = (if idx mod d = idx div d then 1 else 0)"
  by (simp add: identity_matrix_def)

lemma identity_matrix_entry:
  assumes "r < d" and "c < d"
  shows "identity_matrix d ! (r + c * d) = (if r = c then 1 else 0)"
proof -
  have "r + c * d < d * d"
  proof -
    have "r + c * d < d + c * d" using assms by simp
    also have "\<dots> = Suc c * d" by simp
    also have "\<dots> \<le> d * d" using assms by (metis Suc_leI mult.commute mult_le_mono2)
    finally show ?thesis .
  qed
  then show ?thesis using assms by (simp add: identity_matrix_nth)
qed

lemma nth_update_total:
  "xs[i := x] ! j = (if i = j \<and> i < length xs then x else xs ! j)"
  by (cases "i < length xs") (simp_all add: nth_list_update list_update_beyond)

lemma fold_update_pred:
  "P (v ! r) \<Longrightarrow> (\<forall>k \<in> set ks. g k = r \<longrightarrow> P (h k)) \<Longrightarrow>
   P (fold (\<lambda>k v. v[g k := h k]) ks v ! r)"
proof (induction ks arbitrary: v)
  case Nil
  then show ?case by simp
next
  case (Cons k ks)
  have "P (v[g k := h k] ! r)"
  proof (cases "g k < length v")
    case True
    then show ?thesis using Cons.prems by (simp add: nth_list_update)
  next
    case False
    then show ?thesis using Cons.prems by (simp add: list_update_beyond)
  qed
  then show ?case using Cons by simp
qed

lemma fold_update_length: "length (fold (\<lambda>k v. v[g k := h k]) ks v) = length v"
  by (induction ks arbitrary: v) simp_all

lemma resetBuffers_fold:
  "gj_idenMat (fold (resetBuffers_thread d) ids s) = gj_idenMat s
   \<and> gj_inMat (fold (resetBuffers_thread d) ids s) = gj_inMat s
   \<and> length (gj_vals (fold (resetBuffers_thread d) ids s)) = length (gj_vals s)
   \<and> (\<forall>k. k < length (gj_vals s) \<longrightarrow> k < 2 * d \<longrightarrow> (k \<in> set ids \<or> gj_vals s ! k = 0) \<longrightarrow>
          gj_vals (fold (resetBuffers_thread d) ids s) ! k = 0)"
proof (induction ids arbitrary: s)
  case Nil
  show ?case by simp
next
  case (Cons i ids)
  let ?t = "resetBuffers_thread d i s"
  have t: "gj_idenMat ?t = gj_idenMat s" "gj_inMat ?t = gj_inMat s"
          "length (gj_vals ?t) = length (gj_vals s)"
    by (simp_all add: resetBuffers_thread_def Let_def)
  have z: "gj_vals ?t ! k = 0"
    if "k < length (gj_vals s)" "k < 2 * d" "k = i \<or> gj_vals s ! k = 0" for k
    using that by (auto simp: resetBuffers_thread_def Let_def nth_update_total)
  show ?case using Cons.IH [of ?t] t z by auto
qed

lemma leader_index_mod: "p < d \<Longrightarrow> (p * (d + 1)) mod d = (p::nat)"
  by simp

lemma leader_index_less:
  assumes "p < d"
  shows "p * (d + 1) < d * (d::nat)"
proof -
  have "p * (d + 1) = p + p * d" by simp
  also have "\<dots> < d + p * d" using assms by simp
  also have "\<dots> = Suc p * d" by simp
  also have "\<dots> \<le> d * d" using assms by (metis Suc_leI mult.commute mult_le_mono2)
  finally show ?thesis .
qed

lemma normalizeRows_thread_identity:
  assumes id: "gj_identity d s" and p: "p < d" and v: "unit_vals d s"
  shows "gj_identity d (normalizeRows_thread d p index s)
         \<and> unit_vals d (normalizeRows_thread d p index s)"
proof -
  define s1 where "s1 = (if index = p * (d + 1)
                then s\<lparr>gj_vals := fold (\<lambda>k firstVals. firstVals[k := gj_inMat s ! (index - p + k)])
                                      [index mod d..<d] (gj_vals s),
                       gj_flag := True\<rparr>
                else s)"
  have id1: "gj_identity d s1" using id by (simp add: s1_def gj_identity_def)
  have v1: "unit_vals d s1"
  proof (cases "index = p * (d + 1)")
    case False
    then show ?thesis using v by (simp add: s1_def)
  next
    case True
    have "fold (\<lambda>k firstVals. firstVals[k := identity_matrix d ! (index - p + k)])
               [index mod d..<d] (gj_vals s) ! k = 0
          \<or> fold (\<lambda>k firstVals. firstVals[k := identity_matrix d ! (index - p + k)])
               [index mod d..<d] (gj_vals s) ! k = 1" if "k < d" for k
    proof (rule fold_update_pred [where P = "\<lambda>x. x = 0 \<or> x = 1" and g = "\<lambda>k. k"])
      show "gj_vals s ! k = 0 \<or> gj_vals s ! k = 1" using v that by (simp add: unit_vals_def)
      show "\<forall>k'\<in>set [index mod d..<d]. k' = k \<longrightarrow>
              identity_matrix d ! (index - p + k') = 0 \<or> identity_matrix d ! (index - p + k') = 1"
      proof (intro ballI impI)
        fix k' assume "k' \<in> set [index mod d..<d]" "k' = k"
        have "index - p + k' = k + p * d" using True \<open>k' = k\<close> by simp
        then show "identity_matrix d ! (index - p + k') = 0 \<or> identity_matrix d ! (index - p + k') = 1"
          using identity_matrix_entry [OF that p] by simp
      qed
    qed
    then show ?thesis using True id by (simp add: s1_def unit_vals_def gj_identity_def)
  qed
  have d: "index mod d < d" using p by simp
  then have nv: "gj_vals s1 ! (index mod d) = 0 \<or> gj_vals s1 ! (index mod d) = 1"
    using v1 by (simp add: unit_vals_def)
  have eq: "normalizeRows_thread d p index s =
     (let normVal = gj_vals s1 ! (index mod d)
      in if normVal \<noteq> 0 \<and> index \<ge> p mod d
         then s1\<lparr>gj_idenMat := (gj_idenMat s1)[index := gj_idenMat s1 ! index / normVal],
                 gj_inMat := (gj_inMat s1)[index := gj_inMat s1 ! index / normVal]\<rparr>
         else s1)"
    by (simp add: normalizeRows_thread_def s1_def Let_def)
  show ?thesis using nv id1 v1 by (auto simp: eq Let_def gj_identity_def unit_vals_def)
qed

lemma pivotDown_thread_identity:
  assumes id: "gj_identity d s" and p: "p < d"
  shows "pivotDown_thread d p index s = s"
proof (cases "index mod d > p")
  case False
  then show ?thesis by (simp add: pivotDown_thread_def)
next
  case True
  have "index mod d < d" using p by simp
  then have "identity_matrix d ! (index mod d + p * d) = 0"
    using identity_matrix_entry [of "index mod d" d p] p True by simp
  then show ?thesis using id by (simp add: pivotDown_thread_def gj_identity_def)
qed

lemma pivotUp_thread_identity:
  assumes id: "gj_identity d s" and p: "p < d" and v: "zero_above p s"
  shows "gj_identity d (pivotUp_thread d p index s) \<and> zero_above p (pivotUp_thread d p index s)"
proof -
  define s1 where "s1 = (if index = p * (d + 1)
                then s\<lparr>gj_vals := fold (\<lambda>k lastVals. lastVals[(index - k) mod d := gj_inMat s ! (index - k)])
                                      (rev [0..<index mod d + 1]) (gj_vals s),
                       gj_flag := True\<rparr>
                else s)"
  have id1: "gj_identity d s1" using id by (simp add: s1_def gj_identity_def)
  have v1: "zero_above p s1"
  proof (cases "index = p * (d + 1)")
    case False
    then show ?thesis using v by (simp add: s1_def)
  next
    case True
    have "fold (\<lambda>k lastVals. lastVals[(index - k) mod d := identity_matrix d ! (index - k)])
               (rev [0..<index mod d + 1]) (gj_vals s) ! r = 0" if "r < p" for r
    proof (rule fold_update_pred [where P = "\<lambda>x. x = 0"])
      show "gj_vals s ! r = 0" using v that by (simp add: zero_above_def)
      show "\<forall>k\<in>set (rev [0..<index mod d + 1]). (index - k) mod d = r \<longrightarrow>
              identity_matrix d ! (index - k) = 0"
      proof (intro ballI impI)
        fix k assume k: "k \<in> set (rev [0..<index mod d + 1])" and r: "(index - k) mod d = r"
        have "index mod d = p" using True leader_index_mod [OF p] by simp
        then have "k \<le> p" using k by auto
        then have ik: "index - k = (p - k) + p * d" using True by simp
        have "p - k < d" using p by simp
        then have "(index - k) mod d = p - k" using ik by simp
        then have "p - k = r" using r by simp
        then have "p - k \<noteq> p" using that by simp
        then show "identity_matrix d ! (index - k) = 0"
          using identity_matrix_entry [OF \<open>p - k < d\<close> p] ik by simp
      qed
    qed
    then show ?thesis using True id by (simp add: s1_def zero_above_def gj_identity_def)
  qed
  have eq: "pivotUp_thread d p index s =
     (if index mod d < p
         then s1\<lparr>gj_idenMat := (gj_idenMat s1)[index := gj_idenMat s1 ! index
                     - gj_vals s1 ! (index mod d)
                       * gj_idenMat s1 ! (index + p - index mod d)],
                 gj_inMat := (gj_inMat s1)[index := gj_inMat s1 ! index
                     - gj_vals s1 ! (index mod d)
                       * gj_inMat s1 ! (index + p - index mod d)]\<rparr>
         else s1)"
    by (simp add: pivotUp_thread_def s1_def Let_def)
  show ?thesis using id1 v1 by (auto simp: eq gj_identity_def zero_above_def)
qed

lemma fold_invariant:
  "P s \<Longrightarrow> (\<And>i s. P s \<Longrightarrow> P (f i s)) \<Longrightarrow> P (fold f ids s)"
  by (induction ids arbitrary: s) simp_all

lemma normalizeRows_thread_vals_length:
  "length (gj_vals (normalizeRows_thread d p index s)) = length (gj_vals s)"
  by (simp add: normalizeRows_thread_def Let_def fold_update_length)

lemma pivotUp_thread_vals_length:
  "length (gj_vals (pivotUp_thread d p index s)) = length (gj_vals s)"
  by (simp add: pivotUp_thread_def Let_def fold_update_length)

lemma resetBuffers_identity:
  assumes "gj_inv d s"
  shows "gj_inv d (resetBuffers d d s d)"
    and "k < d \<Longrightarrow> gj_vals (resetBuffers d d s d) ! k = 0"
proof -
  note r = resetBuffers_fold [of d "[0..<d * d]" s]
  show "gj_inv d (resetBuffers d d s d)"
    using assms r by (simp add: resetBuffers_def launch_indices_upt gj_inv_def gj_identity_def)
  show "gj_vals (resetBuffers d d s d) ! k = 0" if "k < d"
  proof -
    have "k < d * d" using that by (metis One_nat_def Suc_leI le_less_trans less_le_trans
          mult.right_neutral mult_le_mono2 not_less_zero not_gr_zero order_refl)
    then show ?thesis
      using assms r that by (simp add: resetBuffers_def launch_indices_upt gj_inv_def)
  qed
qed

lemma normalizeRows_identity:
  assumes inv: "gj_inv d s" and v: "unit_vals d s" and p: "p < d"
  shows "\<exists>s'. normalizeRows d d s d p = Some s' \<and> gj_inv d s'"
proof -
  let ?P = "\<lambda>s. gj_inv d s \<and> unit_vals d s"
  have "?P (fold (normalizeRows_thread d p) threads s)" for threads
  proof (rule fold_invariant [where P = ?P])
    show "?P s" using inv v by simp
    show "?P (normalizeRows_thread d p i s)" if "?P s" for i s
      using that normalizeRows_thread_identity [of d s p i] p
      by (simp add: gj_inv_def normalizeRows_thread_vals_length)
  qed
  then have "gj_inv d (fold (normalizeRows_thread d p)
                 (p * (d + 1) # removeAll (p * (d + 1)) [0..<d * d]) s)"
    by blast
  moreover have "normalizeRows d d s d p = Some (fold (normalizeRows_thread d p)
                 (p * (d + 1) # removeAll (p * (d + 1)) [0..<d * d]) s)"
    using leader_index_less [OF p]
    by (simp add: normalizeRows_def spin_wait_order_def launch_indices_upt)
  ultimately show ?thesis by simp
qed

lemma pivotDown_identity:
  assumes "gj_inv d s" and "p < d"
  shows "pivotDown d d schedule s d p = s"
proof -
  have "fold (pivotDown_thread d p) threads s = s" for threads
    using assms by (induction threads) (simp_all add: pivotDown_thread_identity gj_inv_def)
  then show ?thesis by (simp add: pivotDown_def)
qed

lemma pivotUp_identity:
  assumes inv: "gj_inv d s" and v: "zero_above p s" and p: "p < d"
  shows "\<exists>s'. pivotUp d d s d p = Some s' \<and> gj_inv d s'"
proof -
  let ?P = "\<lambda>s. gj_inv d s \<and> zero_above p s"
  have "?P (fold (pivotUp_thread d p) threads s)" for threads
  proof (rule fold_invariant [where P = ?P])
    show "?P s" using inv v by simp
    show "?P (pivotUp_thread d p i s)" if "?P s" for i s
      using that pivotUp_thread_identity [of d s p i] p
      by (simp add: gj_inv_def pivotUp_thread_vals_length)
  qed
  then have "gj_inv d (fold (pivotUp_thread d p)
                 (p * (d + 1) # removeAll (p * (d + 1)) [0..<d * d]) s)"
    by blast
  moreover have "pivotUp d d s d p = Some (fold (pivotUp_thread d p)
                 (p * (d + 1) # removeAll (p * (d + 1)) [0..<d * d]) s)"
    using leader_index_less [OF p]
    by (simp add: pivotUp_def spin_wait_order_def launch_indices_upt)
  ultimately show ?thesis by simp
qed

lemma invert_forward_identity:
  assumes "gj_inv d s" and "\<forall>p \<in> set pivots. p < d"
  shows "\<exists>s'. invert_forward schedule d pivots s = Some s' \<and> gj_inv d s'"
  using assms
proof (induction pivots arbitrary: s)
  case Nil
  then show ?case by simp
next
  case (Cons p pivots)
  have p: "p < d" using Cons.prems by simp
  have r: "gj_inv d (resetBuffers d d s d)" "unit_vals d (resetBuffers d d s d)"
    using resetBuffers_identity [OF Cons.prems(1)] by (simp_all add: unit_vals_def)
  obtain s1 where s1: "normalizeRows d d (resetBuffers d d s d) d p = Some s1" "gj_inv d s1"
    using normalizeRows_identity [OF r p] by blast
  have "pivotDown d d (schedule p) s1 d p = s1"
    using pivotDown_identity [OF s1(2) p] .
  then show ?case using s1 Cons.IH [of s1] Cons.prems by simp
qed

lemma invert_backward_identity:
  assumes "gj_inv d s" and "\<forall>p \<in> set pivots. p < d"
  shows "\<exists>s'. invert_backward d pivots s = Some s' \<and> gj_inv d s'"
  using assms
proof (induction pivots arbitrary: s)
  case Nil
  then show ?case by simp
next
  case (Cons p pivots)
  have p: "p < d" using Cons.prems by simp
  have r: "gj_inv d (resetBuffers d d s d)" "zero_above p (resetBuffers d d s d)"
    using resetBuffers_identity [OF Cons.prems(1)] p by (simp_all add: zero_above_def)
  obtain s1 where s1: "pivotUp d d (resetBuffers d d s d) d p = Some s1" "gj_inv d s1"
    using pivotUp_identity [OF r p] by blast
  then show ?case using Cons.IH [of s1] Cons.prems by simp
qed

lemma invert_kernels_identity:
  assumes "length junk = 2 * n"
  shows "\<exists>s'. invert_kernels schedule n
                 \<lparr>gj_idenMat = identity_matrix n, gj_inMat = identity_matrix n,
                  gj_vals = junk, gj_flag = fl\<rparr> = Some s'
              \<and> gj_inMat s' = identity_matrix n \<and> gj_idenMat s' = identity_matrix n"
proof -
  let ?s = "\<lparr>gj_idenMat = identity_matrix n, gj_inMat = identity_matrix n,
             gj_vals = junk, gj_flag = fl\<rparr>"
  have "gj_inv n ?s" using assms by (simp add: gj_inv_def gj_identity_def)
  then obtain s1 where s1: "invert_forward schedule n [0..<n] ?s = Some s1" "gj_inv n s1"
    using invert_forward_identity [of n ?s "[0..<n]" schedule] by auto
  obtain s2 where s2: "invert_backward n (rev [1..<n]) s1 = Some s2" "gj_inv n s2"
    using invert_backward_identity [OF s1(2), of "rev [1..<n]"] by auto
  show ?thesis using s1 s2 by (simp add: invert_kernels_def gj_inv_def gj_identity_def)
qed

lemma invertMatrix_identity:
  "invertMatrix (\<lambda>k. cudaSuccess) junk schedule (identity_matrix n) (identity_matrix n) n
     = Some (cudaSuccess, identity_matrix n, identity_matrix n)"
proof -
  have len: "length (uninitialised (2 * n) junk) = 2 * n" by (simp add: uninitialised_def)
  have whole: "take (n ^ 2) (identity_matrix n) = identity_matrix n"
    by (simp add: identity_matrix_length power2_eq_square)
  obtain s' where s': "invert_kernels schedule n
                 \<lparr>gj_idenMat = identity_matrix n, gj_inMat = identity_matrix n,
                  gj_vals = uninitialised (2 * n) junk, gj_flag = True\<rparr> = Some s'"
      "gj_inMat s' = identity_matrix n" "gj_idenMat s' = identity_matrix n"
    using invert_kernels_identity [OF len] by blast
  have copied: "memcpy (identity_matrix n) (identity_matrix n) (n ^ 2) = identity_matrix n"
    by (simp add: memcpy_def)
  show ?thesis
    by (simp add: invertMatrix_def check_def Let_def whole s' copied)
qed

text \<open>
  C1. For every dimension \<open>n\<close>, the launches of \<open>invertMatrix\<close> (for each pivot from 0 to
  \<open>n - 1\<close>: \<open>resetBuffers\<close>, \<open>normalizeRows\<close>, \<open>pivotDown\<close>; then for each pivot from
  \<open>n - 1\<close> down to 1: \<open>resetBuffers\<close>, \<open>pivotUp\<close>), run on the identity matrix as the
  working matrix with the identity matrix as the paired matrix, return, and leave the
  working matrix equal to the identity and the paired matrix equal to its inverse, again
  the identity. This holds for every order of the threads of \<open>pivotDown\<close>, for every
  content of the scratch buffer of \<open>2 * n\<close> doubles and for either value of the flag; and
  \<open>invertMatrix\<close>, when every CUDA call succeeds, hands both matrices back unchanged.
\<close>

theorem invert_identity:
  assumes "length junk = 2 * n"
  shows "(\<exists>s'. invert_kernels schedule n
                 \<lparr>gj_idenMat = identity_matrix n, gj_inMat = identity_matrix n,
                  gj_vals = junk, gj_flag = fl\<rparr> = Some s'
              \<and> gj_inMat s' = identity_matrix n \<and> gj_idenMat s' = identity_matrix n)
         \<and> invertMatrix (\<lambda>k. cudaSuccess) junk schedule (identity_matrix n) (identity_matrix n) n
             = Some (cudaSuccess, identity_matrix n, identity_matrix n)"
  using invert_kernels_identity [OF assms] invertMatrix_identity by blast

theorem invert_identity_witness:
  "length [9, 9, 9, 9 :: real] = 2 * 2
   \<and> (\<exists>s'. invert_kernels (\<lambda>i. rev) 2
                 \<lparr>gj_idenMat = identity_matrix 2, gj_inMat = identity_matrix 2,
                  gj_vals = [9, 9, 9, 9], gj_flag = True\<rparr> = Some s'
              \<and> gj_inMat s' = identity_matrix 2 \<and> gj_idenMat s' = identity_matrix 2)
   \<and> invertMatrix (\<lambda>k. cudaSuccess) [9, 9, 9, 9] (\<lambda>i. rev) (identity_matrix 2) (identity_matrix 2) 2
       = Some (cudaSuccess, identity_matrix 2, identity_matrix 2)"
  using invert_identity [of "[9, 9, 9, 9]" 2 "\<lambda>i. rev" True] by simp

subsection \<open>Dense multiply\<close>

lemma fold_accumulate:
  "index < length out \<Longrightarrow>
   fold (\<lambda>k out. out[index := out ! index + f k]) ks out
     = out[index := out ! index + sum_list (map f ks)]"
proof (induction ks arbitrary: out)
  case Nil
  show ?case by simp
next
  case (Cons k ks)
  have "fold (\<lambda>k out. out[index := out ! index + f k]) ks (out[index := out ! index + f k])
        = (out[index := out ! index + f k])[index := (out[index := out ! index + f k]) ! index
             + sum_list (map f ks)]"
    using Cons.prems by (intro Cons.IH) simp
  then show ?case using Cons.prems by (simp add: add.assoc)
qed

lemma multiplyMatrix_thread_eq:
  "index < length output \<Longrightarrow>
   multiplyMatrix_thread d a b index output
     = output[index := output ! index
         + (\<Sum>k = 0..<d. a ! (index mod d + k * d) * b ! (k + index div d * d))]"
  by (simp add: multiplyMatrix_thread_def Let_def fold_accumulate interv_sum_list_conv_sum_set_nat)

lemma fold_own_cell:
  "distinct ids \<Longrightarrow> k < length out \<Longrightarrow> \<forall>i \<in> set ids. i < length out \<Longrightarrow>
   fold (\<lambda>i out. out[i := out ! i + g i]) ids out ! k
     = (if k \<in> set ids then out ! k + g k else out ! k)"
proof (induction ids arbitrary: out)
  case Nil
  show ?case by simp
next
  case (Cons i ids)
  have "fold (\<lambda>i out. out[i := out ! i + g i]) ids (out[i := out ! i + g i]) ! k
        = (if k \<in> set ids then out[i := out ! i + g i] ! k + g k else out[i := out ! i + g i] ! k)"
    using Cons.prems by (intro Cons.IH) simp_all
  then show ?case using Cons.prems by (auto simp: nth_list_update)
qed

lemma multiplyMatrix_fold_eq:
  "\<forall>i \<in> set ids. i < length out \<Longrightarrow>
   fold (multiplyMatrix_thread d a b) ids out
     = fold (\<lambda>i out. out[i := out ! i
         + (\<Sum>k = 0..<d. a ! (i mod d + k * d) * b ! (k + i div d * d))]) ids out"
proof (induction ids arbitrary: out)
  case Nil
  show ?case by simp
next
  case (Cons i ids)
  then show ?case by (simp add: multiplyMatrix_thread_eq)
qed

lemma multiplyMatrix_nth:
  assumes "idx < n * n" and "n * n \<le> length out"
  shows "multiplyMatrix n n out a b n ! idx
           = out ! idx + (\<Sum>k = 0..<n. a ! (idx mod n + k * n) * b ! (k + idx div n * n))"
proof -
  have "multiplyMatrix n n out a b n
          = fold (\<lambda>i out. out[i := out ! i
              + (\<Sum>k = 0..<n. a ! (i mod n + k * n) * b ! (k + i div n * n))]) [0..<n * n] out"
    using assms by (simp add: multiplyMatrix_def launch_indices_upt multiplyMatrix_fold_eq)
  then show ?thesis using assms by (simp add: fold_own_cell)
qed

lemma multiplyMatrix_identity:
  assumes "idx < n * n" and "n * n \<le> length out"
  shows "multiplyMatrix n n out M (identity_matrix n) n ! idx = out ! idx + M ! idx"
proof -
  have n: "0 < n" using assms by (cases n) simp_all
  have c: "idx div n < n" using assms by (simp add: less_mult_imp_div_less)
  have "(\<Sum>k = 0..<n. M ! (idx mod n + k * n) * identity_matrix n ! (k + idx div n * n))
        = (\<Sum>k = 0..<n. if k = idx div n then M ! (idx mod n + k * n) else 0)"
    by (rule sum.cong) (simp_all add: identity_matrix_entry c)
  also have "\<dots> = M ! (idx mod n + idx div n * n)" using c by simp
  also have "\<dots> = M ! idx" by (simp add: add.commute)
  finally show ?thesis using assms by (simp add: multiplyMatrix_nth)
qed

text \<open>
  C3. The claim: for all \<open>n\<close>-by-\<open>n\<close> matrices \<open>a\<close> and \<open>b\<close> the dense multiply leaves at
  every output index the sum over \<open>k\<close> of \<open>a[row + k * n] * b[k + col * n]\<close>, so that a
  matrix times the identity is that matrix. The kernel adds the sum to what the output
  buffer held (\<open>multiplyMatrix_nth\<close>), and \<open>multiplyMatrices\<close> hands it a fresh device
  buffer: with 5 in that memory, the 1-by-1 matrix \<open>[2]\<close> times the identity comes back
  as \<open>[7]\<close>, where the sum of the claim is 2.
\<close>

theorem multiplyMatrices_adds_to_fresh_memory:
  "multiplyMatrices (\<lambda>k. cudaSuccess) [5] [2] (identity_matrix 1) 1 = (cudaSuccess, [7])
   \<and> (\<Sum>k = 0..<1. [2 :: real] ! (0 mod 1 + k * 1) * identity_matrix 1 ! (k + 0 div 1 * 1)) = 2"
  by (simp add: multiplyMatrices_def check_def uninitialised_def memcpy_def multiplyMatrix_def
        multiplyMatrix_thread_def launch_indices_def identity_matrix_def)

subsection \<open>The covariance vector of calculateWeightVector\<close>

lemma multiplyMatrix_thread_reads:
  assumes "index < length output"
  shows "multiplyMatrix_thread d a b index output
     = output[index := output ! index
         + (\<Sum>k = 0..<d. a ! (index mod d + k * d)
                            * b ! (multiplyMatrix_thread_secInput_reads d index ! k))]"
proof -
  have "(\<Sum>k = 0..<d. a ! (index mod d + k * d) * b ! (k + index div d * d))
        = (\<Sum>k = 0..<d. a ! (index mod d + k * d)
                            * b ! (multiplyMatrix_thread_secInput_reads d index ! k))"
    by (rule sum.cong) (simp_all add: multiplyMatrix_thread_secInput_reads_def)
  then show ?thesis using assms by (simp add: multiplyMatrix_thread_eq)
qed

lemma calculateWeightVector_reads_index_n:
  assumes "2 \<le> n"
  shows "n \<in> set (calculateWeightVector_covVec_reads n)"
proof -
  have thread: "n \<in> set (launch_indices n n)"
    using assms by (simp add: launch_indices_upt)
  have "0 + n div n * n = n" using assms by simp
  moreover have "(0::nat) \<in> set [0..<n]" using assms by simp
  ultimately have "n \<in> (\<lambda>k. k + n div n * n) ` set [0..<n]"
    by (metis image_eqI)
  then have "n \<in> set (multiplyMatrix_thread_secInput_reads n n)"
    by (simp add: multiplyMatrix_thread_secInput_reads_def Let_def del: set_upt)
  then show ?thesis
    using thread
    unfolding calculateWeightVector_covVec_reads_def multiplyMatrix_secInput_reads_def
    by (simp del: set_upt) blast
qed

text \<open>
  C9. The claim: for every dimension \<open>n\<close>, every read of the covariance-vector device
  buffer by the kernel that \<open>calculateWeightVector\<close> launches is at an index below \<open>n\<close>,
  the number of doubles allocated and copied. For \<open>n = 2\<close> the launch has four threads;
  those with \<open>col = 1\<close> read indices 2 and 3 of a buffer of 2 doubles.
\<close>

theorem calculateWeightVector_reads_past_vector:
  "calculateWeightVector_covVec_reads 2 = [0, 1, 0, 1, 2, 3, 2, 3]"
  by code_simp

subsection \<open>Matrix extension: the kernel\<close>

lemma floor_sqrt_upto_le: "floor_sqrt_upto x m * floor_sqrt_upto x m \<le> x"
  by (induction m) simp_all

lemma floor_sqrt_upto_unique:
  "d \<le> m \<Longrightarrow> d * d \<le> x \<Longrightarrow> x < (d + 1) * (d + 1) \<Longrightarrow> floor_sqrt_upto x m = d"
proof (induction m)
  case 0
  then show ?case by simp
next
  case (Suc m)
  show ?case
  proof (cases "Suc m * Suc m \<le> x")
    case True
    have "\<not> d + 1 \<le> Suc m"
    proof
      assume "d + 1 \<le> Suc m"
      then have "(d + 1) * (d + 1) \<le> Suc m * Suc m" by (intro mult_le_mono)
      then show False using True Suc.prems by simp
    qed
    then have "d = Suc m" using Suc.prems by simp
    then show ?thesis using True by simp
  next
    case False
    then have "d \<noteq> Suc m" using Suc.prems by auto
    then have "d \<le> m" using Suc.prems by simp
    then show ?thesis using False Suc by simp
  qed
qed

lemma le_square_trans: "d * d \<le> x \<Longrightarrow> d \<le> (x::nat)"
proof -
  assume a: "d * d \<le> x"
  have "d \<le> d * d" by (cases d) simp_all
  then show ?thesis using a by (rule le_trans)
qed

lemma floor_sqrt_upto_max: "k \<le> m \<Longrightarrow> k * k \<le> x \<Longrightarrow> k \<le> floor_sqrt_upto x m"
proof (induction m)
  case 0
  then show ?case by simp
next
  case (Suc m)
  show ?case
  proof (cases "k = Suc m")
    case True
    then show ?thesis using Suc.prems by simp
  next
    case False
    then have "k \<le> m" using Suc.prems by simp
    then have "k \<le> floor_sqrt_upto x m" using Suc by simp
    then show ?thesis using \<open>k \<le> m\<close> by simp
  qed
qed

lemma floor_sqrt_unique:
  assumes "d * d \<le> x" and "x < (d + 1) * (d + 1)"
  shows "floor_sqrt x = d"
  unfolding floor_sqrt_def
proof (rule floor_sqrt_upto_unique)
  show "d \<le> x" using assms(1) by (rule le_square_trans)
qed (use assms in auto)

lemma floor_sqrt_bounds:
  "floor_sqrt x * floor_sqrt x \<le> x \<and> x < (floor_sqrt x + 1) * (floor_sqrt x + 1)"
proof
  show "floor_sqrt x * floor_sqrt x \<le> x"
    by (simp add: floor_sqrt_def floor_sqrt_upto_le)
  show "x < (floor_sqrt x + 1) * (floor_sqrt x + 1)"
  proof (rule ccontr)
    assume "\<not> x < (floor_sqrt x + 1) * (floor_sqrt x + 1)"
    then have big: "(floor_sqrt x + 1) * (floor_sqrt x + 1) \<le> x" by simp
    then have "floor_sqrt x + 1 \<le> x" by (rule le_square_trans)
    then have "floor_sqrt x + 1 \<le> floor_sqrt_upto x x"
      using big by (rule floor_sqrt_upto_max)
    then show False by (simp add: floor_sqrt_def)
  qed
qed

lemma extendMat_thread_write:
  "extendMat_thread d inp index out =
     out[index := (if (index + 1) mod d = 0 then (if floor_sqrt (index + 1) = d then 0 else 1)
                   else if index \<ge> d * (d - 1) then 1 else inp ! index)]"
  by (simp add: extendMat_thread_def)

lemma bottom_row_iff:
  assumes "r < d"
  shows "(r + c * d + 1) mod d = 0 \<longleftrightarrow> r = d - (1::nat)"
proof -
  have "(r + c * d + 1) mod d = (r + 1) mod d" by (simp add: add.commute add.left_commute)
  also have "\<dots> = 0 \<longleftrightarrow> r = d - 1"
  proof (cases "r + 1 = d")
    case True
    then show ?thesis by auto
  next
    case False
    then have "r + 1 < d" using assms by simp
    then show ?thesis using False by simp
  qed
  finally show ?thesis .
qed

lemma corner_iff:
  assumes "c < d"
  shows "floor_sqrt ((d - 1) + c * d + 1) = d \<longleftrightarrow> c = d - (1::nat)"
proof -
  have x: "(d - 1) + c * d + 1 = Suc c * d" using assms by simp
  show ?thesis
  proof (cases "c = d - 1")
    case True
    then have "Suc c * d = d * d" using assms by simp
    then have "floor_sqrt (Suc c * d) = d" by (simp add: floor_sqrt_unique)
    then show ?thesis using True x by simp
  next
    case False
    then have "Suc c < d" using assms by simp
    then have "Suc c * d < d * d" using assms by (intro mult_less_mono1) simp_all
    moreover have "floor_sqrt (Suc c * d) * floor_sqrt (Suc c * d) \<le> Suc c * d"
      using floor_sqrt_bounds by blast
    ultimately have "floor_sqrt (Suc c * d) \<noteq> d" by auto
    then show ?thesis using False x by simp
  qed
qed

lemma right_column_iff:
  assumes "r < d" and "c < d"
  shows "d * (d - 1) \<le> r + c * d \<longleftrightarrow> c = d - (1::nat)"
proof (cases "c = d - 1")
  case True
  have "d * (d - 1) \<le> r + (d - 1) * d" by (metis le_add2 mult.commute)
  then show ?thesis using True by simp
next
  case False
  then have "Suc c \<le> d - 1" using assms by simp
  then have "Suc c * d \<le> (d - 1) * d" by (rule mult_le_mono1)
  moreover have "r + c * d < Suc c * d" using assms by simp
  ultimately have "r + c * d < d * (d - 1)" by (simp add: mult.commute)
  then show ?thesis using False by simp
qed

lemma index_in_matrix:
  assumes "r < d" and "c < d"
  shows "r + c * d < d * (d::nat)"
proof -
  have "r + c * d < Suc c * d" using assms by simp
  also have "\<dots> \<le> d * d" using assms by (metis Suc_leI mult.commute mult_le_mono2)
  finally show ?thesis .
qed

lemma extendMat_entry:
  assumes r: "r < d" and c: "c < d" and len: "d * d \<le> length out"
  shows "extendMat d d out inp d ! (r + c * d) =
           (if r = d - 1 then (if c = d - 1 then 0 else 1)
            else if c = d - 1 then 1 else inp ! (r + c * d))"
proof -
  have idx: "r + c * d < d * d" using r c by (rule index_in_matrix)
  have "extendMat d d out inp d ! (r + c * d) =
          (if (r + c * d + 1) mod d = 0 then (if floor_sqrt (r + c * d + 1) = d then 0 else 1)
           else if r + c * d \<ge> d * (d - 1) then 1 else inp ! (r + c * d))"
    using idx len
    by (simp add: extendMat_def extendMat_thread_write [abs_def] launch_indices_upt
          fold_own_index_nth)
  also have "\<dots> = (if r = d - 1 then (if c = d - 1 then 0 else 1)
            else if c = d - 1 then 1 else inp ! (r + c * d))"
    using bottom_row_iff [OF r, of c] corner_iff [OF c] right_column_iff [OF r c] by auto
  finally show ?thesis .
qed

subsection \<open>Matrix extension: the host loop over the input buffer\<close>


lemma fold_option_append:
  "fold_option f (xs @ ys) s =
     (case fold_option f xs s of None \<Rightarrow> None | Some s' \<Rightarrow> fold_option f ys s')"
  by (induction xs arbitrary: s) (simp_all split: option.splits)


lemma fold_option_total:
  "Q s \<Longrightarrow> (\<And>x s. x \<in> set xs \<Longrightarrow> Q s \<Longrightarrow> \<exists>s'. f x s = Some s' \<and> Q s') \<Longrightarrow>
   \<exists>s'. fold_option f xs s = Some s' \<and> Q s'"
proof (induction xs arbitrary: s)
  case Nil
  then show ?case by simp
next
  case (Cons x xs)
  obtain s1 where s1: "f x s = Some s1" "Q s1" using Cons.prems by auto
  show ?case using Cons.IH [OF s1(2)] Cons.prems(2) s1(1) by simp
qed

lemma extendMatrix_swap_rows:
  "extendMatrix_swap n m = fold_option (swap_row n) (rev [0..<n + 1]) m"
  unfolding extendMatrix_swap_def swap_row_def [abs_def] ..

lemma swap_index_bound:
  assumes "i \<le> n" and "j \<le> (n::nat)"
  shows "i + j * (n + 1) < (n + 1) ^ 2" and "i + j * n < (n + 1) ^ 2"
proof -
  have "i + j * (n + 1) < Suc j * (n + 1)" using assms by simp
  also have "\<dots> \<le> (n + 1) * (n + 1)" using assms by (intro mult_le_mono) simp_all
  finally show a: "i + j * (n + 1) < (n + 1) ^ 2" by (simp add: power2_eq_square)
  have "i + j * n \<le> i + j * (n + 1)" by simp
  then show "i + j * n < (n + 1) ^ 2" using a by (rule le_less_trans)
qed

lemma swap_row_total:
  assumes "(n + 1) ^ 2 \<le> length m" and "i \<le> n"
  shows "\<exists>m'. swap_row n i m = Some m' \<and> length m' = length m"
  unfolding swap_row_def
proof (rule fold_option_total [where Q = "\<lambda>s. length s = length m"])
  show "length m = length m" by simp
  fix j and s :: "real list" assume j: "j \<in> set (rev [0..<n + 1])" and s: "length s = length m"
  have "j \<le> n" using j by auto
  then show "\<exists>s'. host_assign (i + j * (n + 1)) (i + j * n) s = Some s' \<and> length s' = length m"
    using swap_index_bound [OF assms(2), of j] assms(1) s by (simp add: host_assign_def)
qed

lemma extendMatrix_swap_total:
  assumes "(n + 1) ^ 2 \<le> length m"
  shows "\<exists>m'. extendMatrix_swap n m = Some m' \<and> length m' = length m"
  unfolding extendMatrix_swap_rows
proof (rule fold_option_total [where Q = "\<lambda>s. length s = length m"])
  show "length m = length m" by simp
  fix i and s :: "real list" assume i: "i \<in> set (rev [0..<n + 1])" and s: "length s = length m"
  have "i \<le> n" using i by auto
  then show "\<exists>s'. swap_row n i s = Some s' \<and> length s' = length m"
    using swap_row_total [of n s i] assms s by simp
qed











lemma extendMatrix_input:
  "extendMatrix rc junk outputMatrix inputMatrix n =
     (case extendMatrix_swap n inputMatrix of
        None \<Rightarrow> None
      | Some m \<Rightarrow> Some (fst (the (extendMatrix rc junk outputMatrix inputMatrix n)),
                       fst (snd (the (extendMatrix rc junk outputMatrix inputMatrix n))), m))"
  by (simp add: extendMatrix_def check_def Let_def split: option.splits)




text \<open>
  C6. The claim: for every \<open>n \<ge> 1\<close> and every \<open>n\<close>-by-\<open>n\<close> input, the matrix extension
  gives an \<open>(n + 1)\<close>-by-\<open>(n + 1)\<close> output whose top-left block is the input, whose bottom
  row and right column are 1 and whose bottom-right corner is 0. The kernel does so for
  a buffer already laid out with stride \<open>n + 1\<close> (\<open>extendMat_entry\<close>), but the host loop
  of \<open>extendMatrix\<close> that produces this layout from the \<open>n\<close>-by-\<open>n\<close> input loses elements
  from \<open>n = 3\<close> on: for the matrix with columns (1, 2, 3), (4, 5, 6), (7, 8, 9) the third
  column of the output's block is (6, 7, 9).
\<close>

theorem extendMatrix_three_by_three:
  "extendMatrix (\<lambda>k. cudaSuccess) [] (replicate 16 0) ([1, 2, 3, 4, 5, 6, 7, 8, 9] @ replicate 7 0) 3
     = Some (cudaSuccess,
             [1, 2, 3, 1, 4, 5, 6, 1, 6, 7, 9, 1, 1, 1, 1, 0],
             [1, 2, 3, 4, 4, 5, 6, 7, 6, 7, 9, 0, 7, 9, 0, 0])"
  by code_simp

subsection \<open>Host buffers after a failed operation\<close>

lemma normalizeRows_returns: "p < d \<Longrightarrow> \<exists>s'. normalizeRows d d s d p = Some s'"
  using leader_index_less [of p d]
  by (simp add: normalizeRows_def spin_wait_order_def launch_indices_upt)

lemma pivotUp_returns: "p < d \<Longrightarrow> \<exists>s'. pivotUp d d s d p = Some s'"
  using leader_index_less [of p d]
  by (simp add: pivotUp_def spin_wait_order_def launch_indices_upt)

lemma invert_forward_returns:
  "\<forall>p \<in> set pivots. p < d \<Longrightarrow> \<exists>s'. invert_forward schedule d pivots s = Some s'"
proof (induction pivots arbitrary: s)
  case Nil
  show ?case by simp
next
  case (Cons p pivots)
  obtain s1 where "normalizeRows d d (resetBuffers d d s d) d p = Some s1"
    using normalizeRows_returns [of p d] Cons.prems by auto
  then show ?case using Cons by simp
qed

lemma invert_backward_returns:
  "\<forall>p \<in> set pivots. p < d \<Longrightarrow> \<exists>s'. invert_backward d pivots s = Some s'"
proof (induction pivots arbitrary: s)
  case Nil
  show ?case by simp
next
  case (Cons p pivots)
  obtain s1 where "pivotUp d d (resetBuffers d d s d) d p = Some s1"
    using pivotUp_returns [of p d] Cons.prems by auto
  then show ?case using Cons by simp
qed

lemma invert_kernels_returns: "\<exists>s'. invert_kernels schedule d s = Some s'"
proof -
  obtain s1 where s1: "invert_forward schedule d [0..<d] s = Some s1"
    using invert_forward_returns [of "[0..<d]" d schedule s] by auto
  obtain s2 where "invert_backward d (rev [1..<d]) s1 = Some s2"
    using invert_backward_returns [of "rev [1..<d]" d s1] by auto
  then show ?thesis using s1 by (simp add: invert_kernels_def)
qed

lemma invertMatrix_returns:
  "\<exists>st out inp. invertMatrix rc junk schedule outputMatrix inputMatrix n = Some (st, out, inp)
      \<and> (st \<noteq> cudaSuccess \<longrightarrow>
            inp = inputMatrix \<and> ((\<exists>k<10. rc k \<noteq> cudaSuccess) \<longrightarrow> out = outputMatrix))"
proof -
  obtain device where device: "invert_kernels schedule n
                  \<lparr>gj_idenMat = take (n ^ 2) outputMatrix,
                   gj_inMat = take (n ^ 2) inputMatrix,
                   gj_vals = uninitialised (2 * n) junk,
                   gj_flag = True\<rparr> = Some device"
    using invert_kernels_returns by blast
  have ten: "(\<exists>k<10. rc k \<noteq> cudaSuccess) \<longleftrightarrow>
        rc 0 \<noteq> cudaSuccess \<or> rc 1 \<noteq> cudaSuccess \<or> rc 2 \<noteq> cudaSuccess \<or> rc 3 \<noteq> cudaSuccess
        \<or> rc 4 \<noteq> cudaSuccess \<or> rc 5 \<noteq> cudaSuccess \<or> rc 6 \<noteq> cudaSuccess \<or> rc 7 \<noteq> cudaSuccess
        \<or> rc 8 \<noteq> cudaSuccess \<or> rc 9 \<noteq> cudaSuccess"
  proof -
    have "{..<10::nat} = {0, 1, 2, 3, 4, 5, 6, 7, 8, 9}" by auto
    then have "(\<exists>k<10. rc k \<noteq> cudaSuccess) \<longleftrightarrow> (\<exists>k \<in> {0, 1, 2, 3, 4, 5, 6, 7, 8, 9 :: nat}. rc k \<noteq> cudaSuccess)"
      by (metis lessThan_iff)
    then show ?thesis by simp
  qed
  show ?thesis
    unfolding ten
    by (simp add: invertMatrix_def check_def Let_def device)
qed

text \<open>
  C4, as amended. When the distance, correlation, identity, weight-vector or multiply
  operation returns a failure status, the host buffer it writes (its output buffer) is
  as it was: it is overwritten only by the final device-to-host copy, once that copy has
  succeeded. \<open>invertMatrix\<close> returns, and on a failure status its \<open>inputMatrix\<close> is as it
  was, and so is its \<open>outputMatrix\<close> when one of the first ten CUDA calls failed; when
  only the last copy fails, \<open>outputMatrix\<close> has already been overwritten.
  \<open>extendMatrix\<close> is not among them: it rewrites its input buffer on every call.
\<close>

theorem failed_operation_leaves_buffers:
  "(fst (calculateDistanceBetweenMatrices rc junk outputMatrix inMatrixOne inMatrixTwo n) \<noteq> cudaSuccess \<longrightarrow>
      snd (calculateDistanceBetweenMatrices rc junk outputMatrix inMatrixOne inMatrixTwo n) = outputMatrix)
   \<and> (fst (calculateDistanceBetweenMatrixVector rc junk outputMatrix inMatrix inVector n) \<noteq> cudaSuccess \<longrightarrow>
      snd (calculateDistanceBetweenMatrixVector rc junk outputMatrix inMatrix inVector n) = outputMatrix)
   \<and> (fst (calculateGaussianCorrelation rc outputMatrix inMatrix variance a theta n) \<noteq> cudaSuccess \<longrightarrow>
      snd (calculateGaussianCorrelation rc outputMatrix inMatrix variance a theta n) = outputMatrix)
   \<and> (fst (createIdentityMatrix rc outputMatrix n) \<noteq> cudaSuccess \<longrightarrow>
      snd (createIdentityMatrix rc outputMatrix n) = outputMatrix)
   \<and> (fst (calculateWeightVector rc junk outputMatrix inMatrix inVector n) \<noteq> cudaSuccess \<longrightarrow>
      snd (calculateWeightVector rc junk outputMatrix inMatrix inVector n) = outputMatrix)
   \<and> (fst (multiplyMatrices rc junk outputMatrix inMatrix n) \<noteq> cudaSuccess \<longrightarrow>
      snd (multiplyMatrices rc junk outputMatrix inMatrix n) = outputMatrix)
   \<and> (\<exists>st out inp. invertMatrix rc junk schedule outputMatrix inputMatrix n = Some (st, out, inp)
          \<and> (st \<noteq> cudaSuccess \<longrightarrow>
                inp = inputMatrix \<and> ((\<exists>k<10. rc k \<noteq> cudaSuccess) \<longrightarrow> out = outputMatrix)))"
proof (intro conjI)
  show "fst (calculateDistanceBetweenMatrices rc junk outputMatrix inMatrixOne inMatrixTwo n) \<noteq> cudaSuccess \<longrightarrow>
      snd (calculateDistanceBetweenMatrices rc junk outputMatrix inMatrixOne inMatrixTwo n) = outputMatrix"
    by (simp add: calculateDistanceBetweenMatrices_def check_def Let_def)
  show "fst (calculateDistanceBetweenMatrixVector rc junk outputMatrix inMatrix inVector n) \<noteq> cudaSuccess \<longrightarrow>
      snd (calculateDistanceBetweenMatrixVector rc junk outputMatrix inMatrix inVector n) = outputMatrix"
    by (simp add: calculateDistanceBetweenMatrixVector_def check_def Let_def)
  show "fst (calculateGaussianCorrelation rc outputMatrix inMatrix variance a theta n) \<noteq> cudaSuccess \<longrightarrow>
      snd (calculateGaussianCorrelation rc outputMatrix inMatrix variance a theta n) = outputMatrix"
    by (simp add: calculateGaussianCorrelation_def check_def Let_def)
  show "fst (createIdentityMatrix rc outputMatrix n) \<noteq> cudaSuccess \<longrightarrow>
      snd (createIdentityMatrix rc outputMatrix n) = outputMatrix"
    by (simp add: createIdentityMatrix_def check_def Let_def)
  show "fst (calculateWeightVector rc junk outputMatrix inMatrix inVector n) \<noteq> cudaSuccess \<longrightarrow>
      snd (calculateWeightVector rc junk outputMatrix inMatrix inVector n) = outputMatrix"
    by (simp add: calculateWeightVector_def check_def Let_def)
  show "fst (multiplyMatrices rc junk outputMatrix inMatrix n) \<noteq> cudaSuccess \<longrightarrow>
      snd (multiplyMatrices rc junk outputMatrix inMatrix n) = outputMatrix"
    by (simp add: multiplyMatrices_def check_def Let_def)
  show "\<exists>st out inp. invertMatrix rc junk schedule outputMatrix inputMatrix n = Some (st, out, inp)
          \<and> (st \<noteq> cudaSuccess \<longrightarrow>
                inp = inputMatrix \<and> ((\<exists>k<10. rc k \<noteq> cudaSuccess) \<longrightarrow> out = outputMatrix))"
    by (rule invertMatrix_returns)
qed

theorem failed_operation_leaves_buffers_witness:
  "fst (calculateDistanceBetweenMatrices (\<lambda>k. if k = 3 then cudaError 2 else cudaSuccess) [] [9] [1] [3] 1) \<noteq> cudaSuccess
   \<and> snd (calculateDistanceBetweenMatrices (\<lambda>k. if k = 3 then cudaError 2 else cudaSuccess) [] [9] [1] [3] 1) = [9]
   \<and> fst (calculateDistanceBetweenMatrixVector (\<lambda>k. if k = 3 then cudaError 2 else cudaSuccess) [] [9] [1] [3] 1) \<noteq> cudaSuccess
   \<and> snd (calculateDistanceBetweenMatrixVector (\<lambda>k. if k = 3 then cudaError 2 else cudaSuccess) [] [9] [1] [3] 1) = [9]
   \<and> fst (calculateGaussianCorrelation (\<lambda>k. if k = 3 then cudaError 2 else cudaSuccess) [9] [1] 5 2 3 1) \<noteq> cudaSuccess
   \<and> snd (calculateGaussianCorrelation (\<lambda>k. if k = 3 then cudaError 2 else cudaSuccess) [9] [1] 5 2 3 1) = [9]
   \<and> fst (createIdentityMatrix (\<lambda>k. if k = 3 then cudaError 2 else cudaSuccess) [9] 1) \<noteq> cudaSuccess
   \<and> snd (createIdentityMatrix (\<lambda>k. if k = 3 then cudaError 2 else cudaSuccess) [9] 1) = [9]
   \<and> fst (calculateWeightVector (\<lambda>k. if k = 3 then cudaError 2 else cudaSuccess) [] [9] [1] [3] 1) \<noteq> cudaSuccess
   \<and> snd (calculateWeightVector (\<lambda>k. if k = 3 then cudaError 2 else cudaSuccess) [] [9] [1] [3] 1) = [9]
   \<and> fst (multiplyMatrices (\<lambda>k. if k = 3 then cudaError 2 else cudaSuccess) [] [9] [1] 1) \<noteq> cudaSuccess
   \<and> snd (multiplyMatrices (\<lambda>k. if k = 3 then cudaError 2 else cudaSuccess) [] [9] [1] 1) = [9]
   \<and> (\<exists>st out inp. invertMatrix (\<lambda>k. if k = 3 then cudaError 2 else cudaSuccess) [] (\<lambda>i. id) [9] [2] 1
                        = Some (st, out, inp)
          \<and> st \<noteq> cudaSuccess \<and> inp = [2] \<and> out = [9])"
proof -
  let ?rc = "\<lambda>k::nat. if k = 3 then cudaError 2 else cudaSuccess"
  have failing:
    "fst (calculateDistanceBetweenMatrices ?rc [] [9] [1] [3] 1) \<noteq> cudaSuccess"
    "fst (calculateDistanceBetweenMatrixVector ?rc [] [9] [1] [3] 1) \<noteq> cudaSuccess"
    "fst (calculateGaussianCorrelation ?rc [9] [1] 5 2 3 1) \<noteq> cudaSuccess"
    "fst (createIdentityMatrix ?rc [9] 1) \<noteq> cudaSuccess"
    "fst (calculateWeightVector ?rc [] [9] [1] [3] 1) \<noteq> cudaSuccess"
    "fst (multiplyMatrices ?rc [] [9] [1] 1) \<noteq> cudaSuccess"
    by (simp_all add: calculateDistanceBetweenMatrices_def calculateDistanceBetweenMatrixVector_def
          calculateGaussianCorrelation_def createIdentityMatrix_def calculateWeightVector_def
          multiplyMatrices_def check_def)
  have inv: "invertMatrix ?rc [] (\<lambda>i. id) [9] [2] 1 = Some (cudaError 2, [9], [2])"
    by (simp add: invertMatrix_def)
  show ?thesis
    using failing inv
      failed_operation_leaves_buffers [of ?rc "[]" "[9]" "[1]" "[3]" 1 "[1]" "[3]" 5 2 3 "\<lambda>i. id" "[2]"]
    by simp
qed

text \<open>
  Two failing calls that have modified a host buffer of the caller: \<open>extendMatrix\<close> whose
  first \<open>cudaMalloc\<close> fails has already rewritten its input buffer, and \<open>invertMatrix\<close>
  whose last copy fails has already overwritten \<open>outputMatrix\<close>.
\<close>

theorem failed_operation_changes_buffer:
  "extendMatrix (\<lambda>k. cudaError 2) [] [0, 0, 0, 0] [1, 2, 3, 4] 1
     = Some (cudaError 2, [0, 0, 0, 0], [1, 2, 2, 3])
   \<and> invertMatrix (\<lambda>k. if k = 10 then cudaError 2 else cudaSuccess) [] (\<lambda>i. id) [1] [2] 1
     = Some (cudaError 2, [1 / 2], [2])"
  by code_simp

subsection \<open>The driver: calls made, and what a failure returns\<close>

lemma run_statements_failed:
  "cudaStatus s \<noteq> cudaSuccess \<Longrightarrow> run_statements fs s = Some s"
  unfolding run_statements_def
  by (induction fs) (simp_all add: unless_failed_def)

lemma run_statements_Cons:
  "cudaStatus s = cudaSuccess \<Longrightarrow>
   run_statements (f # fs) s = (case f s of None \<Rightarrow> None | Some s' \<Rightarrow> run_statements fs s')"
  by (simp add: run_statements_def unless_failed_def split: option.splits)

lemma calls_of_simps:
  "calls_of [] = []"
  "calls_of ((None, f, L) # rest) = calls_of rest"
  "calls_of ((Some c, f, L) # rest) = c # calls_of rest"
  by (simp_all add: calls_of_def List.map_filter_simps)

lemma run_chained:
  assumes "chained L chain" and "L s" and "cudaStatus s = cudaSuccess"
  shows "\<exists>s' finished. run_statements (map (fst \<circ> snd) chain) s = Some s'
           \<and> outputValue s' = outputValue s
           \<and> performed s' = performed s @ finished
           \<and> (\<forall>c \<in> set (butlast finished). snd c = cudaSuccess)
           \<and> (cudaStatus s' = cudaSuccess \<longrightarrow>
                 map fst finished = calls_of chain \<and> (\<forall>c \<in> set finished. snd c = cudaSuccess))
           \<and> (cudaStatus s' \<noteq> cudaSuccess \<longrightarrow>
                 (\<exists>k < length (calls_of chain). map fst finished = take (Suc k) (calls_of chain))
                 \<and> snd (last finished) = cudaStatus s')"
  using assms
proof (induction chain arbitrary: L s)
  case Nil
  then show ?case by (simp add: run_statements_def calls_of_simps)
next
  case (Cons x chain)
  obtain label f L' where x: "x = (label, f, L')" by (cases x) auto
  have p: "performs L label f L'" and ch: "chained L' chain" using Cons.prems(1) x by simp_all
  obtain s1 where s1: "f s = Some s1" "L' s1" "outputValue s1 = outputValue s"
      "case label of Some c \<Rightarrow> performed s1 = performed s @ [(c, cudaStatus s1)]
                   | None \<Rightarrow> performed s1 = performed s \<and> cudaStatus s1 = cudaStatus s"
    using p Cons.prems(2) unfolding performs_def by blast
  have run: "run_statements (map (fst \<circ> snd) (x # chain)) s = run_statements (map (fst \<circ> snd) chain) s1"
    using Cons.prems(3) s1(1) x by (simp add: run_statements_Cons)
  show ?case
  proof (cases label)
    case None
    then have same: "performed s1 = performed s" "cudaStatus s1 = cudaSuccess"
      using s1(4) Cons.prems(3) by simp_all
    obtain s' finished where r: "run_statements (map (fst \<circ> snd) chain) s1 = Some s'"
        "outputValue s' = outputValue s1" "performed s' = performed s1 @ finished"
        "\<forall>c \<in> set (butlast finished). snd c = cudaSuccess"
        "cudaStatus s' = cudaSuccess \<longrightarrow>
           map fst finished = calls_of chain \<and> (\<forall>c \<in> set finished. snd c = cudaSuccess)"
        "cudaStatus s' \<noteq> cudaSuccess \<longrightarrow>
           (\<exists>k < length (calls_of chain). map fst finished = take (Suc k) (calls_of chain))
           \<and> snd (last finished) = cudaStatus s'"
      using Cons.IH [OF ch s1(2) same(2)] by blast
    have c: "calls_of (x # chain) = calls_of chain" using x None by (simp add: calls_of_simps)
    show ?thesis
      unfolding run c
      using r s1(3) same(1) by (intro exI [of _ s'] exI [of _ finished]) simp
  next
    case (Some c)
    then have perf: "performed s1 = performed s @ [(c, cudaStatus s1)]" using s1(4) by simp
    have cs: "calls_of (x # chain) = c # calls_of chain" using x Some by (simp add: calls_of_simps)
    show ?thesis
    proof (cases "cudaStatus s1 = cudaSuccess")
      case False
      have "run_statements (map (fst \<circ> snd) chain) s1 = Some s1"
        using False by (rule run_statements_failed)
      then show ?thesis
        unfolding run cs
        using False perf s1(3)
        by (intro exI [of _ s1] exI [of _ "[(c, cudaStatus s1)]"]) auto
    next
      case True
      obtain s' finished where r: "run_statements (map (fst \<circ> snd) chain) s1 = Some s'"
          "outputValue s' = outputValue s1" "performed s' = performed s1 @ finished"
          "\<forall>c \<in> set (butlast finished). snd c = cudaSuccess"
          "cudaStatus s' = cudaSuccess \<longrightarrow>
             map fst finished = calls_of chain \<and> (\<forall>c \<in> set finished. snd c = cudaSuccess)"
          "cudaStatus s' \<noteq> cudaSuccess \<longrightarrow>
             (\<exists>k < length (calls_of chain). map fst finished = take (Suc k) (calls_of chain))
             \<and> snd (last finished) = cudaStatus s'"
        using Cons.IH [OF ch s1(2) True] by blast
      let ?fin = "(c, cudaSuccess) # finished"
      have a: "performed s' = performed s @ ?fin" using r(3) perf True by simp
      have b: "\<forall>c \<in> set (butlast ?fin). snd c = cudaSuccess"
        using r(4) by (cases finished) auto
      have ok: "cudaStatus s' = cudaSuccess \<longrightarrow>
                 map fst ?fin = c # calls_of chain \<and> (\<forall>c \<in> set ?fin. snd c = cudaSuccess)"
        using r(5) by simp
      have bad: "(\<exists>k < length (c # calls_of chain). map fst ?fin = take (Suc k) (c # calls_of chain))
                 \<and> snd (last ?fin) = cudaStatus s'" if f: "cudaStatus s' \<noteq> cudaSuccess"
      proof -
        obtain k where k: "k < length (calls_of chain)" "map fst finished = take (Suc k) (calls_of chain)"
          and l: "snd (last finished) = cudaStatus s'"
          using r(6) f by blast
        have "finished \<noteq> []" using k by (cases "calls_of chain") auto
        then have "snd (last ?fin) = cudaStatus s'" using l by simp
        moreover have "Suc k < length (c # calls_of chain)" using k(1) by simp
        moreover have "map fst ?fin = take (Suc (Suc k)) (c # calls_of chain)" using k(2) by simp
        ultimately show ?thesis by blast
      qed
      show ?thesis
        unfolding run cs
        using r(1,2) s1(3) a b ok bad
        by (intro exI [of _ s'] exI [of _ ?fin]) auto
    qed
  qed
qed

lemma length_uninitialised: "length (uninitialised c junk) = c"
  by (simp add: uninitialised_def)

lemma length_memcpy: "length (memcpy dst src c) = min (length src) c + (length dst - c)"
  by (simp add: memcpy_def)

lemma length_calcDistanceBetMats:
  "length (calcDistanceBetMats g b out x y d) = length out"
  by (simp add: calcDistanceBetMats_def calcDistanceBetMats_thread_def [abs_def] fold_own_index_length)

lemma length_calcGaussCorr:
  "length (calcGaussCorr g b out x d v a t) = length out"
  by (simp add: calcGaussCorr_def calcGaussCorr_thread_def [abs_def] fold_own_index_length)

lemma square_le_next: "n ^ 2 \<le> (n + 1) ^ 2" for n :: nat
  by (simp add: power2_eq_square)

lemma length_calculateDistanceBetweenMatrices:
  assumes "length out = (n + 1) ^ 2"
  shows "length (snd (calculateDistanceBetweenMatrices rc junk out x y n)) = (n + 1) ^ 2"
  using assms square_le_next [of n]
  by (simp add: calculateDistanceBetweenMatrices_def check_def Let_def length_memcpy
        length_calcDistanceBetMats length_uninitialised)

lemma length_calculateGaussianCorrelation:
  assumes "length out = (n + 1) ^ 2"
  shows "length (snd (calculateGaussianCorrelation rc out out v a t n)) = (n + 1) ^ 2"
  using assms square_le_next [of n]
  by (simp add: calculateGaussianCorrelation_def check_def Let_def length_memcpy
        length_calcGaussCorr min_def)

lemma run_chained_invariant:
  assumes "chained L chain" and "L s" and "\<forall>s. L s \<longrightarrow> Q s"
    and "\<forall>x \<in> set chain. \<forall>s. snd (snd x) s \<longrightarrow> Q s"
  shows "\<exists>s'. run_statements (map (fst \<circ> snd) chain) s = Some s' \<and> Q s'"
  using assms
proof (induction chain arbitrary: L s)
  case Nil
  then show ?case by (simp add: run_statements_def)
next
  case (Cons x chain)
  obtain label f L' where x: "x = (label, f, L')" by (cases x) auto
  have p: "performs L label f L'" and ch: "chained L' chain" using Cons.prems(1) x by simp_all
  show ?case
  proof (cases "cudaStatus s = cudaSuccess")
    case False
    then have "run_statements (map (fst \<circ> snd) (x # chain)) s = Some s"
      by (rule run_statements_failed)
    moreover have "Q s" using Cons.prems(2,3) by blast
    ultimately show ?thesis by blast
  next
    case True
    obtain s1 where s1: "f s = Some s1" "L' s1"
      using p Cons.prems(2) unfolding performs_def by blast
    have run: "run_statements (map (fst \<circ> snd) (x # chain)) s
                 = run_statements (map (fst \<circ> snd) chain) s1"
      using True s1(1) x by (simp add: run_statements_Cons)
    have q: "\<forall>s. L' s \<longrightarrow> Q s" using Cons.prems(4) x by simp
    have rest: "\<forall>x \<in> set chain. \<forall>s. snd (snd x) s \<longrightarrow> Q s" using Cons.prems(4) by simp
    show ?thesis
      unfolding run by (rule Cons.IH [OF ch s1(2) q rest])
  qed
qed

lemma performs_cudaSetDevice:
  "performs (holds_extended n P) (Some SetDevice) (call_cudaSetDevice env) (holds_extended n P)"
  by (simp add: performs_def call_cudaSetDevice_def returned_from_def holds_extended_def)

lemma performs_createIdentityMatrix:
  assumes "\<forall>rc m. P m \<longrightarrow> P (snd (createIdentityMatrix rc m n))"
  shows "performs (holds_extended n P) (Some CreateIdentity) (call_createIdentityMatrix env n)
           (holds_extended n P)"
  unfolding performs_def
proof (intro allI impI)
  fix s assume h: "holds_extended n P s"
  then have "P (snd (createIdentityMatrix (return_codes env CreateIdentity) (identityMatrix s) n))"
    using assms by (simp add: holds_extended_def)
  then show "\<exists>s'. call_createIdentityMatrix env n s = Some s' \<and> holds_extended n P s'
         \<and> outputValue s' = outputValue s
         \<and> (case Some CreateIdentity of
               Some c \<Rightarrow> performed s' = performed s @ [(c, cudaStatus s')]
             | None \<Rightarrow> performed s' = performed s \<and> cudaStatus s' = cudaStatus s)"
    using h
    by (auto simp: call_createIdentityMatrix_def returned_from_def holds_extended_def
          split: prod.splits)
qed

lemma performs_calculateDistanceBetweenMatrices:
  "performs (holds_extended n P) (Some DistanceMatrices)
     (call_calculateDistanceBetweenMatrices env n x y) (holds_extended n P)"
  unfolding performs_def
proof (intro allI impI)
  fix s assume h: "holds_extended n P s"
  then have "length (snd (calculateDistanceBetweenMatrices (return_codes env DistanceMatrices)
               (fresh_memory env DistanceMatrices) (tempMatrixOne s) x y n)) = (n + 1) ^ 2"
    by (intro length_calculateDistanceBetweenMatrices) (simp add: holds_extended_def)
  then show "\<exists>s'. call_calculateDistanceBetweenMatrices env n x y s = Some s' \<and> holds_extended n P s'
         \<and> outputValue s' = outputValue s
         \<and> (case Some DistanceMatrices of
               Some c \<Rightarrow> performed s' = performed s @ [(c, cudaStatus s')]
             | None \<Rightarrow> performed s' = performed s \<and> cudaStatus s' = cudaStatus s)"
    using h
    by (auto simp: call_calculateDistanceBetweenMatrices_def returned_from_def holds_extended_def
          split: prod.splits)
qed

lemma performs_calculateDistanceBetweenMatrixVector:
  "performs (holds_extended n P) (Some DistanceMatrixVector)
     (call_calculateDistanceBetweenMatrixVector env n x y) (holds_extended n P)"
  by (simp add: performs_def call_calculateDistanceBetweenMatrixVector_def returned_from_def
        holds_extended_def split: prod.splits)

lemma performs_calculateGaussianCorrelation_One:
  "performs (holds_extended n P) (Some CorrelationMatrix)
     (call_calculateGaussianCorrelation_One env n v a t) (holds_extended n P)"
  unfolding performs_def
proof (intro allI impI)
  fix s assume h: "holds_extended n P s"
  then have "length (snd (calculateGaussianCorrelation (return_codes env CorrelationMatrix)
               (tempMatrixOne s) (tempMatrixOne s) v a t n)) = (n + 1) ^ 2"
    by (intro length_calculateGaussianCorrelation) (simp add: holds_extended_def)
  then show "\<exists>s'. call_calculateGaussianCorrelation_One env n v a t s = Some s' \<and> holds_extended n P s'
         \<and> outputValue s' = outputValue s
         \<and> (case Some CorrelationMatrix of
               Some c \<Rightarrow> performed s' = performed s @ [(c, cudaStatus s')]
             | None \<Rightarrow> performed s' = performed s \<and> cudaStatus s' = cudaStatus s)"
    using h
    by (auto simp: call_calculateGaussianCorrelation_One_def returned_from_def holds_extended_def
          split: prod.splits)
qed

lemma performs_calculateGaussianCorrelation_Two:
  "performs (holds_extended n P) (Some CorrelationVector)
     (call_calculateGaussianCorrelation_Two env n v a t) (holds_extended n P)"
  by (simp add: performs_def call_calculateGaussianCorrelation_Two_def returned_from_def
        holds_extended_def split: prod.splits)

lemma performs_clear_after_vector:
  "performs (holds_extended n P) None (clear_after_vector n) (holds_extended n P)"
  by (simp add: performs_def clear_after_vector_def holds_extended_def)

lemma performs_extendMatrix:
  "performs (holds_extended n P) (Some Extend) (call_extendMatrix env n) (keeps_identity P)"
  unfolding performs_def
proof (intro allI impI)
  fix s assume h: "holds_extended n P s"
  then have "(n + 1) ^ 2 \<le> length (tempMatrixOne s)" by (simp add: holds_extended_def)
  then obtain m where "extendMatrix_swap n (tempMatrixOne s) = Some m"
    using extendMatrix_swap_total by blast
  then obtain st out where "extendMatrix (return_codes env Extend) (fresh_memory env Extend)
             (tempMatrixOne s) (tempMatrixOne s) n = Some (st, out, m)"
    using extendMatrix_input [of "return_codes env Extend" "fresh_memory env Extend"
            "tempMatrixOne s" "tempMatrixOne s" n] by simp
  then show "\<exists>s'. call_extendMatrix env n s = Some s' \<and> keeps_identity P s'
         \<and> outputValue s' = outputValue s
         \<and> (case Some Extend of
               Some c \<Rightarrow> performed s' = performed s @ [(c, cudaStatus s')]
             | None \<Rightarrow> performed s' = performed s \<and> cudaStatus s' = cudaStatus s)"
    using h by (simp add: call_extendMatrix_def returned_from_def holds_extended_def keeps_identity_def)
qed

lemma performs_extend_vector:
  "performs (keeps_identity P) None (extend_vector n) (keeps_identity P)"
  by (simp add: performs_def extend_vector_def keeps_identity_def)

lemma performs_invertMatrix:
  "performs L (Some Invert) (call_invertMatrix env n) (\<lambda>s. True)"
  unfolding performs_def
proof (intro allI impI)
  fix s :: setup_state
  obtain st out inp where "invertMatrix (return_codes env Invert) (fresh_memory env Invert)
        (thread_order env) (identityMatrix s) (tempMatrixOne s) (n + 1) = Some (st, out, inp)"
    using invertMatrix_returns by blast
  then show "\<exists>s'. call_invertMatrix env n s = Some s' \<and> True
         \<and> outputValue s' = outputValue s
         \<and> (case Some Invert of
               Some c \<Rightarrow> performed s' = performed s @ [(c, cudaStatus s')]
             | None \<Rightarrow> performed s' = performed s \<and> cudaStatus s' = cudaStatus s)"
    by (simp add: call_invertMatrix_def returned_from_def)
qed

lemma performs_calculateWeightVector:
  "performs (\<lambda>s. True) (Some Weights) (call_calculateWeightVector env n) (\<lambda>s. True)"
  by (simp add: performs_def call_calculateWeightVector_def returned_from_def split: prod.splits)

lemma performs_multiplyMatrices:
  "performs (\<lambda>s. True) (Some Estimate) (call_multiplyMatrices env n y) (\<lambda>s. True)"
  by (simp add: performs_def call_multiplyMatrices_def returned_from_def split: prod.splits)

lemma metamodelSetup_calls:
  fixes env n theta variance a designSite testSite designSiteValues
  defines "statements \<equiv>
     metamodelSetup_statements env n theta variance a designSite testSite designSiteValues"
  shows "\<exists>s' finished. run_statements (butlast statements) (initial_state n) = Some s'
           \<and> outputValue s' = 0
           \<and> performed s' = finished
           \<and> (\<forall>c \<in> set (butlast finished). snd c = cudaSuccess)
           \<and> (cudaStatus s' \<noteq> cudaSuccess \<longrightarrow>
                 (\<exists>k < 10. map fst finished = take (Suc k) pipeline)
                 \<and> snd (last finished) = cudaStatus s')"
proof -
  let ?L = "holds_extended n (\<lambda>m. True)" and ?K = "keeps_identity (\<lambda>m. True)"
  let ?T = "\<lambda>s :: setup_state. True"
  let ?chain = "[(Some SetDevice, call_cudaSetDevice env, ?L),
      (Some CreateIdentity, call_createIdentityMatrix env n, ?L),
      (Some DistanceMatrices, call_calculateDistanceBetweenMatrices env n designSite designSiteValues, ?L),
      (Some DistanceMatrixVector, call_calculateDistanceBetweenMatrixVector env n designSite testSite, ?L),
      (Some CorrelationMatrix, call_calculateGaussianCorrelation_One env n variance a theta, ?L),
      (Some CorrelationVector, call_calculateGaussianCorrelation_Two env n variance a theta, ?L),
      (None, clear_after_vector n, ?L),
      (Some Extend, call_extendMatrix env n, ?K),
      (None, extend_vector n, ?K),
      (Some Invert, call_invertMatrix env n, ?T),
      (Some Weights, call_calculateWeightVector env n, ?T),
      (Some Estimate, call_multiplyMatrices env n designSiteValues, ?T)]"
  have ch: "chained ?L ?chain"
    by (simp add: performs_cudaSetDevice performs_createIdentityMatrix
          performs_calculateDistanceBetweenMatrices performs_calculateDistanceBetweenMatrixVector
          performs_calculateGaussianCorrelation_One performs_calculateGaussianCorrelation_Two
          performs_clear_after_vector performs_extendMatrix performs_extend_vector
          performs_invertMatrix performs_calculateWeightVector performs_multiplyMatrices)
  have st: "butlast statements = map (fst \<circ> snd) ?chain"
    by (simp add: statements_def metamodelSetup_statements_def)
  have cs: "calls_of ?chain = pipeline"
    by (simp add: calls_of_simps pipeline_def)
  have init: "?L (initial_state n)" "cudaStatus (initial_state n) = cudaSuccess"
    "outputValue (initial_state n) = 0" "performed (initial_state n) = []"
    by (simp_all add: initial_state_def holds_extended_def)
  have len: "length pipeline = 10" by (simp add: pipeline_def)
  show ?thesis
    using run_chained [OF ch init(1,2)] unfolding st cs init(3,4) len by auto
qed

text \<open>
  C7, as amended. \<open>metamodelSetup\<close> always returns. When a call fails, it is the last
  call made: the calls made are an initial part of the pipeline, all but the last
  returned \<open>cudaSuccess\<close> and the last returned the failure status. The driver then
  prints the two diagnostic lines with that status, frees its three host buffers, and
  returns \<open>outputValue\<close> as initialised: the ordinary double 0.
\<close>

theorem metamodelSetup_on_failure:
  "\<exists>r. metamodelSetup env n theta variance a designSite testSite designSiteValues = Some r
      \<and> (status r \<noteq> cudaSuccess \<longrightarrow>
            returned r = 0
          \<and> printed r = [Setup_Device_failed, Setup_CUDA_Error_Code (status r)]
          \<and> freed r = [''identityMatrix'', ''tempMatrixOne'', ''tempMatrixTwo'']
          \<and> (\<exists>k < 10. map fst (calls r) = take (Suc k) pipeline)
          \<and> snd (last (calls r)) = status r
          \<and> (\<forall>c \<in> set (butlast (calls r)). snd c = cudaSuccess))"
proof -
  let ?statements = "metamodelSetup_statements env n theta variance a designSite testSite designSiteValues"
  obtain s' where s': "run_statements (butlast ?statements) (initial_state n) = Some s'"
      "outputValue s' = 0"
      "\<forall>c \<in> set (butlast (performed s')). snd c = cudaSuccess"
      "cudaStatus s' \<noteq> cudaSuccess \<longrightarrow>
         (\<exists>k < 10. map fst (performed s') = take (Suc k) pipeline)
         \<and> snd (last (performed s')) = cudaStatus s'"
    using metamodelSetup_calls [of env n theta variance a designSite testSite designSiteValues]
    by auto
  have split: "?statements = butlast ?statements @ [take_outputValue]"
    by (simp add: metamodelSetup_statements_def)
  have "run_statements ?statements (initial_state n) = unless_failed take_outputValue s'"
    using s'(1) unfolding run_statements_def
    by (subst split) (simp add: fold_option_append split: option.splits)
  then have run: "metamodelSetup env n theta variance a designSite testSite designSiteValues
      = Some (SetupError (if cudaStatus s' \<noteq> cudaSuccess then s'
                          else s'\<lparr>outputValue := tempMatrixTwo s' ! 0\<rparr>))"
    by (simp add: metamodelSetup_def unless_failed_def take_outputValue_def)
  show ?thesis
    unfolding run using s'(2,3,4) by (simp add: SetupError_def)
qed

theorem metamodelSetup_on_failure_witness:
  "metamodelSetup \<lparr>return_codes = (\<lambda>c k. if c = CreateIdentity then cudaError 2 else cudaSuccess),
                    fresh_memory = (\<lambda>c. []), thread_order = (\<lambda>i. id)\<rparr> 1 1 1 0 [0] [0] [0]
     = Some \<lparr>returned = 0,
             printed = [Setup_Device_failed, Setup_CUDA_Error_Code (cudaError 2)],
             freed = [''identityMatrix'', ''tempMatrixOne'', ''tempMatrixTwo''],
             calls = [(SetDevice, cudaSuccess), (CreateIdentity, cudaError 2)],
             status = cudaError 2\<rparr>
   \<and> cudaError 2 \<noteq> cudaSuccess
   \<and> map fst [(SetDevice, cudaSuccess), (CreateIdentity, cudaError 2)] = take (Suc 1) pipeline"
  using metamodelSetup_on_failure
          [of "\<lparr>return_codes = (\<lambda>c k. if c = CreateIdentity then cudaError 2 else cudaSuccess),
                 fresh_memory = (\<lambda>c. []), thread_order = (\<lambda>i. id)\<rparr>" 1 1 1 0 "[0]" "[0]" "[0]"]
  by (simp add: metamodelSetup_def metamodelSetup_statements_def run_statements_def
        unless_failed_def initial_state_def returned_from_def call_cudaSetDevice_def
        call_createIdentityMatrix_def call_calculateDistanceBetweenMatrices_def
        call_calculateDistanceBetweenMatrixVector_def call_calculateGaussianCorrelation_One_def
        call_calculateGaussianCorrelation_Two_def clear_after_vector_def call_extendMatrix_def
        extend_vector_def SetupError_def state_before_invertMatrix_def createIdentityMatrix_def check_def pipeline_def)

text \<open>
  The claim has the driver return, on failure, an indication that no valid result can
  be taken for, not an ordinary zero. With \<open>cudaSetDevice\<close> failing the driver returns 0.
\<close>

theorem metamodelSetup_failure_returns_zero:
  "metamodelSetup \<lparr>return_codes = (\<lambda>c k. if c = SetDevice then cudaError 2 else cudaSuccess),
                    fresh_memory = (\<lambda>c. []), thread_order = (\<lambda>i. id)\<rparr> 1 1 1 0 [0] [0] [0]
     = Some \<lparr>returned = 0,
             printed = [Setup_Device_failed, Setup_CUDA_Error_Code (cudaError 2)],
             freed = [''identityMatrix'', ''tempMatrixOne'', ''tempMatrixTwo''],
             calls = [(SetDevice, cudaError 2)],
             status = cudaError 2\<rparr>"
  by (simp add: metamodelSetup_def metamodelSetup_statements_def run_statements_def
        unless_failed_def initial_state_def returned_from_def call_cudaSetDevice_def
        call_createIdentityMatrix_def call_calculateDistanceBetweenMatrices_def
        call_calculateDistanceBetweenMatrixVector_def call_calculateGaussianCorrelation_One_def
        call_calculateGaussianCorrelation_Two_def clear_after_vector_def call_extendMatrix_def
        extend_vector_def SetupError_def state_before_invertMatrix_def)

subsection \<open>The driver: the paired buffer of the inversion\<close>

lemma createIdentMat_thread_write:
  "createIdentMat_thread d index matrix = matrix[index := (if index mod (d + 1) = 0 then 1 else 0)]"
  by (simp add: createIdentMat_thread_def)

lemma createIdentMat_nth:
  assumes "k < g * b" and "g * b \<le> length matrix"
  shows "createIdentMat g b matrix d ! k = (if k mod (d + 1) = 0 then 1 else 0)"
  using assms
  by (simp add: createIdentMat_def createIdentMat_thread_write [abs_def] launch_indices_upt
        fold_own_index_nth)

lemma length_createIdentMat: "length (createIdentMat g b matrix d) = length matrix"
  by (simp add: createIdentMat_def createIdentMat_thread_write [abs_def] fold_own_index_length)

lemma diagonal_index_iff:
  assumes "r < n" and "c < (n::nat)"
  shows "(r + c * n) mod (n + 1) = 0 \<longleftrightarrow> r = c"
proof (cases "c \<le> r")
  case True
  have e: "r + c * n = (r - c) + c * (n + 1)" using True by simp
  have "(r + c * n) mod (n + 1) = ((r - c) + c * (n + 1)) mod (n + 1)" by (simp only: e)
  also have "\<dots> = (r - c) mod (n + 1)" by (rule mod_mult_self1)
  also have "\<dots> = r - c" using assms by simp
  finally show ?thesis using True by auto
next
  case False
  then obtain e where e: "c = Suc e" by (cases c) auto
  have eq: "r + c * n = (n + 1 + r - c) + e * (n + 1)" using False e assms by simp
  have "(r + c * n) mod (n + 1) = ((n + 1 + r - c) + e * (n + 1)) mod (n + 1)" by (simp only: eq)
  also have "\<dots> = (n + 1 + r - c) mod (n + 1)" by (rule mod_mult_self1)
  also have "\<dots> = n + 1 + r - c" using False assms by simp
  finally show ?thesis using False assms by auto
qed

lemma createIdentMat_is_identity:
  assumes "length matrix = n * n"
  shows "createIdentMat n n matrix n = identity_matrix n"
proof (rule nth_equalityI)
  show "length (createIdentMat n n matrix n) = length (identity_matrix n)"
    using assms by (simp add: length_createIdentMat identity_matrix_length)
  fix k assume "k < length (createIdentMat n n matrix n)"
  then have k: "k < n * n" using assms by (simp add: length_createIdentMat)
  then have n: "0 < n" by (cases n) simp_all
  have c: "k div n < n" using k by (simp add: less_mult_imp_div_less)
  have "(k mod n + k div n * n) mod (n + 1) = 0 \<longleftrightarrow> k mod n = k div n"
    using n c by (intro diagonal_index_iff) simp_all
  then have "k mod (n + 1) = 0 \<longleftrightarrow> k mod n = k div n" by (simp add: add.commute)
  then show "createIdentMat n n matrix n ! k = identity_matrix n ! k"
    using k assms by (simp add: createIdentMat_nth identity_matrix_nth)
qed

lemma createIdentityMatrix_second_diagonal:
  assumes n: "1 \<le> n" and m: "second_diagonal_zero n m"
  shows "second_diagonal_zero n (snd (createIdentityMatrix rc m n))"
proof -
  let ?dev = "createIdentMat n n (take (n ^ 2) m) n"
  have len: "length m = (n + 1) ^ 2" and z: "m ! (n + 2) = 0"
    using m by (simp_all add: second_diagonal_zero_def)
  have le: "n ^ 2 \<le> length m" using len square_le_next [of n] by simp
  have ldev: "length ?dev = n ^ 2" using le by (simp add: length_createIdentMat)
  have l: "length (memcpy m ?dev (n ^ 2)) = (n + 1) ^ 2"
    using ldev len square_le_next [of n] by (simp add: length_memcpy)
  have "(n + 2) mod (n + 1) = 1 mod (n + 1)" by (metis add.commute add_2_eq_Suc' mod_add_self1 plus_1_eq_Suc)
  then have md: "(n + 2) mod (n + 1) \<noteq> 0" using n by simp
  have v: "memcpy m ?dev (n ^ 2) ! (n + 2) = 0"
  proof (cases "n + 2 < n ^ 2")
    case True
    then have "memcpy m ?dev (n ^ 2) ! (n + 2) = ?dev ! (n + 2)"
      using ldev by (simp add: memcpy_def nth_append)
    also have "\<dots> = 0"
      using True le md by (simp add: createIdentMat_nth power2_eq_square)
    finally show ?thesis .
  next
    case False
    then have "memcpy m ?dev (n ^ 2) ! (n + 2) = m ! (n + 2)"
      using ldev le by (simp add: memcpy_def nth_append)
    then show ?thesis using z by simp
  qed
  show ?thesis
    using l v m by (simp add: createIdentityMatrix_def check_def Let_def second_diagonal_zero_def)
qed

text \<open>
  C2. The claim: in every run of \<open>metamodelSetup\<close> with \<open>n \<ge> 1\<close> the paired buffer handed
  to \<open>invertMatrix\<close> is the identity matrix of dimension \<open>n + 1\<close>, with stride \<open>n + 1\<close>.
  The driver builds the identity of dimension \<open>n\<close>, with stride \<open>n\<close>, in the first \<open>n\<^sup>2\<close>
  elements of the zeroed buffer and hands that to the inversion of dimension \<open>n + 1\<close>:
  for every \<open>n \<ge> 1\<close>, every environment and all inputs, element (1, 1) of the buffer
  is 0 when \<open>invertMatrix\<close> is reached, where the identity has 1.
\<close>

theorem paired_buffer_is_not_identity:
  assumes "1 \<le> n"
  shows "\<exists>s. state_before_invertMatrix env n theta variance a designSite testSite designSiteValues = Some s
           \<and> length (identityMatrix s) = (n + 1) ^ 2
           \<and> identityMatrix s ! (1 + 1 * (n + 1)) = 0
           \<and> identity_matrix (n + 1) ! (1 + 1 * (n + 1)) = 1"
proof -
  let ?P = "second_diagonal_zero n"
  let ?L = "holds_extended n ?P" and ?K = "keeps_identity ?P"
  let ?chain = "[(Some SetDevice, call_cudaSetDevice env, ?L),
      (Some CreateIdentity, call_createIdentityMatrix env n, ?L),
      (Some DistanceMatrices, call_calculateDistanceBetweenMatrices env n designSite designSiteValues, ?L),
      (Some DistanceMatrixVector, call_calculateDistanceBetweenMatrixVector env n designSite testSite, ?L),
      (Some CorrelationMatrix, call_calculateGaussianCorrelation_One env n variance a theta, ?L),
      (Some CorrelationVector, call_calculateGaussianCorrelation_Two env n variance a theta, ?L),
      (None, clear_after_vector n, ?L),
      (Some Extend, call_extendMatrix env n, ?K),
      (None, extend_vector n, ?K)]"
  have create: "\<forall>rc m. ?P m \<longrightarrow> ?P (snd (createIdentityMatrix rc m n))"
    using createIdentityMatrix_second_diagonal [OF assms] by blast
  have ch: "chained ?L ?chain"
    by (simp add: performs_cudaSetDevice performs_createIdentityMatrix [OF create]
          performs_calculateDistanceBetweenMatrices performs_calculateDistanceBetweenMatrixVector
          performs_calculateGaussianCorrelation_One performs_calculateGaussianCorrelation_Two
          performs_clear_after_vector performs_extendMatrix performs_extend_vector)
  have st: "take 9 (metamodelSetup_statements env n theta variance a designSite testSite designSiteValues)
              = map (fst \<circ> snd) ?chain"
    by (simp add: metamodelSetup_statements_def)
  obtain k where "n = Suc k" using assms by (cases n) auto
  then have "n + 2 < (n + 1) ^ 2" by (simp add: power2_eq_square)
  then have init: "?L (initial_state n)"
    by (simp add: initial_state_def holds_extended_def second_diagonal_zero_def)
  obtain s where s: "run_statements (map (fst \<circ> snd) ?chain) (initial_state n) = Some s"
      "?P (identityMatrix s)"
    using run_chained_invariant [OF ch init, of "\<lambda>s. ?P (identityMatrix s)"]
    by (auto simp: holds_extended_def keeps_identity_def)
  have "identity_matrix (n + 1) ! (1 + 1 * (n + 1)) = 1"
    using identity_matrix_entry [of 1 "n + 1" 1] assms by simp
  then show ?thesis
    using s unfolding state_before_invertMatrix_def st
    by (simp add: second_diagonal_zero_def)
qed

lemma eval_replicate: "replicate ((Suc (Suc 0)) ^ 2) (0::real) = [0, 0, 0, 0]"
  by code_simp

lemma eval_createIdentityMatrix: "createIdentityMatrix (\<lambda>k. cudaSuccess) [0, 0, 0, 0] (Suc 0) = (cudaSuccess, [1, 0, 0, 0])"
  by code_simp

lemma eval_calculateDistanceBetweenMatrices: "calculateDistanceBetweenMatrices (\<lambda>k. cudaSuccess) [] [0, 0, 0, 0] [0] [0] (Suc 0) = (cudaSuccess, [0, 0, 0, 0])"
  by code_simp

lemma eval_calculateDistanceBetweenMatrixVector: "calculateDistanceBetweenMatrixVector (\<lambda>k. cudaSuccess) [] [0, 0, 0, 0] [0] [0] (Suc 0) = (cudaSuccess, [0, 0, 0, 0])"
  by code_simp

lemma eval_calculateGaussianCorrelation: "calculateGaussianCorrelation (\<lambda>k. cudaSuccess) [0, 0, 0, 0] [0, 0, 0, 0] 1 0 1 (Suc 0) = (cudaSuccess, [1, 0, 0, 0])"
  by (simp add: calculateGaussianCorrelation_def check_def calcGaussCorr_def calcGaussCorr_thread_def
        launch_indices_def memcpy_def)

lemma eval_clear_after_vector: "fold (\<lambda>i m. m[i := 0]) [Suc 0..<(Suc (Suc 0)) ^ 2] [1, 0, 0, 0 :: real] = [1, 0, 0, 0]"
  by code_simp

lemma eval_extendMatrix: "extendMatrix (\<lambda>k. cudaSuccess) [] [1, 0, 0, 0] [1, 0, 0, 0] (Suc 0) = Some (cudaSuccess, [1, 1, 1, 0], [1, 0, 0, 0])"
  by code_simp

text \<open>
  For \<open>n = 1\<close> with every call succeeding the driver reaches \<open>invertMatrix\<close> with the
  buffer \<open>[1, 0, 0, 0]\<close>; the identity of dimension 2 is \<open>[1, 0, 0, 1]\<close>.
\<close>

theorem paired_buffer_is_not_identity_witness:
  "(1::nat) \<le> 1
   \<and> state_before_invertMatrix \<lparr>return_codes = (\<lambda>c k. cudaSuccess), fresh_memory = (\<lambda>c. []),
                                  thread_order = (\<lambda>i. id)\<rparr> 1 1 1 0 [0] [0] [0]
       = Some \<lparr>identityMatrix = [1, 0, 0, 0], tempMatrixOne = [1, 1, 1, 0], tempMatrixTwo = [1, 1, 0, 0],
               cudaStatus = cudaSuccess, outputValue = 0,
               performed = [(SetDevice, cudaSuccess), (CreateIdentity, cudaSuccess),
                            (DistanceMatrices, cudaSuccess), (DistanceMatrixVector, cudaSuccess),
                            (CorrelationMatrix, cudaSuccess), (CorrelationVector, cudaSuccess),
                            (Extend, cudaSuccess)]\<rparr>
   \<and> length [1, 0, 0, 0 :: real] = (1 + 1) ^ 2
   \<and> [1, 0, 0, 0 :: real] ! (1 + 1 * (1 + 1)) = 0
   \<and> identity_matrix (1 + 1) ! (1 + 1 * (1 + 1)) = 1"
  using paired_buffer_is_not_identity
          [of 1 "\<lparr>return_codes = (\<lambda>c k. cudaSuccess), fresh_memory = (\<lambda>c. []),
                    thread_order = (\<lambda>i. id)\<rparr>" 1 1 0 "[0]" "[0]" "[0]"]
  by (simp add: metamodelSetup_def metamodelSetup_statements_def run_statements_def
        unless_failed_def initial_state_def returned_from_def call_cudaSetDevice_def
        call_createIdentityMatrix_def call_calculateDistanceBetweenMatrices_def
        call_calculateDistanceBetweenMatrixVector_def call_calculateGaussianCorrelation_One_def
        call_calculateGaussianCorrelation_Two_def clear_after_vector_def call_extendMatrix_def
        extend_vector_def SetupError_def state_before_invertMatrix_def eval_replicate eval_createIdentityMatrix eval_calculateDistanceBetweenMatrices eval_calculateDistanceBetweenMatrixVector eval_calculateGaussianCorrelation eval_clear_after_vector eval_extendMatrix)

end
